theory Spec2Isabelle
  imports Complex_Main "HOL-Library.AList"
begin

section \<open>Strings\<close>

text \<open>
  A JavaScript string is modelled as a \<^typ>\<open>string\<close>: a list of 8-bit code units (the
  Latin-1 range of UTF-16).  Whitespace is what \<^verbatim>\<open>\s\<close> and \<^verbatim>\<open>trim()\<close> accept in that
  range: TAB, LF, VT, FF, CR, SPACE and NBSP.
\<close>

definition is_space :: "char \<Rightarrow> bool" where
  "is_space c = (c \<in> set [CHR 0x09, CHR 0x0A, CHR 0x0B, CHR 0x0C, CHR 0x0D, CHR 0x20, CHR 0xA0])"

definition trim :: "string \<Rightarrow> string" where
  "trim s = rev (dropWhile is_space (rev (dropWhile is_space s)))"

text \<open>\<^verbatim>\<open>toLowerCase()\<close> on the Latin-1 range: A-Z and the accented capitals move up by 32.\<close>

definition lower_char :: "char \<Rightarrow> char" where
  "lower_char c =
     (let n = (of_char c :: nat)
      in if (65 \<le> n \<and> n \<le> 90) \<or> (192 \<le> n \<and> n \<le> 222 \<and> n \<noteq> 215) then char_of (n + 32) else c)"

definition toLowerCase :: "string \<Rightarrow> string" where
  "toLowerCase s = map lower_char s"

text \<open>The \<^verbatim>\<open>i\<close> flag on an ASCII letter of a pattern: only the two ASCII cases match.\<close>

definition fold_ascii :: "char \<Rightarrow> char" where
  "fold_ascii c =
     (let n = (of_char c :: nat) in if 65 \<le> n \<and> n \<le> 90 then char_of (n + 32) else c)"

fun starts_with :: "string \<Rightarrow> string \<Rightarrow> bool" where
  "starts_with s [] = True"
| "starts_with [] (y # ys) = False"
| "starts_with (x # xs) (y # ys) = (x = y \<and> starts_with xs ys)"

text \<open>\<^verbatim>\<open>hay.includes(needle)\<close>\<close>

fun str_includes :: "string \<Rightarrow> string \<Rightarrow> bool" where
  "str_includes [] needle = (needle = [])"
| "str_includes (x # xs) needle = (starts_with (x # xs) needle \<or> str_includes xs needle)"

section \<open>The regular expressions of the source\<close>

text \<open>
  Every pattern of the source is a sequence of items, each a character class, a greedy or
  lazy star over a character class, the end anchor or a bracket of the one capture group.
  \<open>rx\<close> is the backtracking matcher at a fixed position: a greedy star first tries to take
  one more character, a lazy star first tries to stop.  It returns the matched text, the
  text of capture group 1 and the rest of the input.
\<close>

datatype cls =
    Ch char              \<comment> \<open>a literal character\<close>
  | ChI char             \<comment> \<open>a literal letter under the \<^verbatim>\<open>i\<close> flag\<close>
  | NotCh char           \<comment> \<open>\<^verbatim>\<open>[^c]\<close>\<close>
  | AnyOf "char list"    \<comment> \<open>\<^verbatim>\<open>[abc]\<close>\<close>
  | Space                \<comment> \<open>\<^verbatim>\<open>\s\<close>\<close>
  | AnyCh                \<comment> \<open>\<^verbatim>\<open>[\s\S]\<close>\<close>
  | UpperDigit           \<comment> \<open>\<^verbatim>\<open>[A-Z0-9]\<close>\<close>

fun cls_ok :: "cls \<Rightarrow> char \<Rightarrow> bool" where
  "cls_ok (Ch c) x = (x = c)"
| "cls_ok (ChI c) x = (fold_ascii x = fold_ascii c)"
| "cls_ok (NotCh c) x = (x \<noteq> c)"
| "cls_ok (AnyOf cs) x = (x \<in> set cs)"
| "cls_ok Space x = is_space x"
| "cls_ok AnyCh x = True"
| "cls_ok UpperDigit x =
     (let n = (of_char x :: nat) in (65 \<le> n \<and> n \<le> 90) \<or> (48 \<le> n \<and> n \<le> 57))"

datatype item =
    Single cls   \<comment> \<open>one character of the class\<close>
  | Star cls     \<comment> \<open>\<^verbatim>\<open>c*\<close>, greedy\<close>
  | Lazy cls     \<comment> \<open>\<^verbatim>\<open>c*?\<close>, lazy\<close>
  | Open         \<comment> \<open>\<^verbatim>\<open>(\<close>\<close>
  | Close        \<comment> \<open>\<^verbatim>\<open>)\<close>\<close>
  | Eos          \<comment> \<open>\<^verbatim>\<open>$\<close>\<close>

type_synonym rxmatch = "string \<times> string \<times> string"

definition took :: "bool \<Rightarrow> char \<Rightarrow> rxmatch \<Rightarrow> rxmatch" where
  "took cap x m = (case m of (w, g, rest) \<Rightarrow> (x # w, if cap then x # g else g, rest))"

fun rx :: "item list \<Rightarrow> bool \<Rightarrow> string \<Rightarrow> rxmatch option" where
  "rx [] cap s = Some ([], [], s)"
| "rx (Open # r) cap s = rx r True s"
| "rx (Close # r) cap s = rx r False s"
| "rx (Eos # r) cap s = (if s = [] then rx r cap s else None)"
| "rx (Single c # r) cap [] = None"
| "rx (Single c # r) cap (x # s) =
     (if cls_ok c x then map_option (took cap x) (rx r cap s) else None)"
| "rx (Star c # r) cap [] = rx r cap []"
| "rx (Star c # r) cap (x # s) =
     (if cls_ok c x
      then (case rx (Star c # r) cap s of
              Some m \<Rightarrow> Some (took cap x m)
            | None \<Rightarrow> rx r cap (x # s))
      else rx r cap (x # s))"
| "rx (Lazy c # r) cap [] = rx r cap []"
| "rx (Lazy c # r) cap (x # s) =
     (case rx r cap (x # s) of
        Some m \<Rightarrow> Some m
      | None \<Rightarrow> if cls_ok c x then map_option (took cap x) (rx (Lazy c # r) cap s) else None)"

text \<open>
  A pattern is its items and whether it starts with \<^verbatim>\<open>^\<close>.  \<open>exec\<close> is
  \<^verbatim>\<open>RegExp.prototype.exec\<close> from the start of the input: the leftmost position where
  the items match.  It returns the text before the match, the match, group 1 and the rest.
\<close>

type_synonym regex = "bool \<times> item list"

type_synonym found = "string \<times> string \<times> string \<times> string"

fun scan :: "item list \<Rightarrow> string \<Rightarrow> found option" where
  "scan r [] = map_option (\<lambda>m. ([], m)) (rx r False [])"
| "scan r (x # s) =
     (case rx r False (x # s) of
        Some m \<Rightarrow> Some ([], m)
      | None \<Rightarrow> map_option (\<lambda>(pre, m). (x # pre, m)) (scan r s))"

definition exec :: "regex \<Rightarrow> string \<Rightarrow> found option" where
  "exec re s =
     (if fst re then map_option (\<lambda>m. ([], m)) (rx (snd re) False s) else scan (snd re) s)"

text \<open>\<^verbatim>\<open>s.replace(re, '')\<close> for a pattern without the \<^verbatim>\<open>g\<close> flag: the first match is cut out.\<close>

definition replace_first :: "regex \<Rightarrow> string \<Rightarrow> string" where
  "replace_first re s = (case exec re s of None \<Rightarrow> s | Some (pre, w, g, rest) \<Rightarrow> pre @ rest)"

definition lit :: "string \<Rightarrow> item list" where
  "lit s = map (\<lambda>c. Single (Ch c)) s"

definition litI :: "string \<Rightarrow> item list" where
  "litI s = map (\<lambda>c. Single (ChI c)) s"

lemma rx_splits_input: "rx r cap s = Some (w, g, rest) \<Longrightarrow> s = w @ rest"
proof (induction r cap s arbitrary: w g rest rule: rx.induct)
  case (1 cap s)
  then show ?case by simp
next
  case (2 r cap s)
  then show ?case by simp
next
  case (3 r cap s)
  then show ?case by simp
next
  case (4 r cap s)
  then show ?case by (cases "s = []") simp_all
next
  case (5 c r cap)
  then show ?case by simp
next
  case (6 c r cap x s)
  then show ?case by (cases "cls_ok c x") (auto simp: took_def)
next
  case (7 c r cap)
  then show ?case by simp
next
  case (8 c r cap x s)
  then show ?case
    by (cases "cls_ok c x"; cases "rx (Star c # r) cap s") (auto simp: took_def)
next
  case (9 c r cap)
  then show ?case by simp
next
  case (10 c r cap x s)
  then show ?case
    by (cases "rx r cap (x # s)"; cases "cls_ok c x") (auto simp: took_def)
qed

lemma scan_splits_input: "scan r s = Some (pre, w, g, rest) \<Longrightarrow> s = pre @ w @ rest"
proof (induction s arbitrary: pre)
  case Nil
  then show ?case by (auto dest: rx_splits_input)
next
  case (Cons x s)
  then show ?case by (auto split: option.splits dest: rx_splits_input)
qed

text \<open>
  \<^verbatim>\<open>matchAll\<close> and \<^verbatim>\<open>replace\<close> with a \<^verbatim>\<open>g\<close> pattern go from match to match; after an empty
  match the search moves on by one character.  \<open>matchAll\<close> returns capture group 1 of every
  match, \<open>removeAll\<close> is \<^verbatim>\<open>s.replace(re, '')\<close>.
\<close>

function matchAll :: "item list \<Rightarrow> string \<Rightarrow> string list" where
  "matchAll r s =
     (case scan r s of
        None \<Rightarrow> []
      | Some (pre, w, g, rest) \<Rightarrow>
          g # (if w = [] then (case rest of [] \<Rightarrow> [] | x # t \<Rightarrow> matchAll r t)
               else matchAll r rest))"
  by pat_completeness auto
termination
  by (relation "measure (\<lambda>(r, s). length s)") (auto dest!: scan_splits_input)

function removeAll :: "item list \<Rightarrow> string \<Rightarrow> string" where
  "removeAll r s =
     (case scan r s of
        None \<Rightarrow> s
      | Some (pre, w, g, rest) \<Rightarrow>
          pre @ (if w = [] then (case rest of [] \<Rightarrow> [] | x # t \<Rightarrow> x # removeAll r t)
                 else removeAll r rest))"
  by pat_completeness auto
termination
  by (relation "measure (\<lambda>(r, s). length s)") (auto dest!: scan_splits_input)

text \<open>\<^verbatim>\<open>re.test(s)\<close>\<close>

definition regex_test :: "regex \<Rightarrow> string \<Rightarrow> bool" where
  "regex_test re s = (exec re s \<noteq> None)"

section \<open>JavaScript values\<close>

text \<open>
  What \<^verbatim>\<open>JSON.parse\<close> returns, and \<^verbatim>\<open>undefined\<close>, which reading a missing key gives.
  A number is a rational: every finite double is one.  An object is the list of its own
  properties as they were inserted (JavaScript enumerates integer-like keys first; nothing
  here depends on the order of other keys than the record's).
\<close>

datatype jsval =
    JUndefined
  | JNull
  | JBool bool
  | JNum rat
  | JStr string
  | JArr "jsval list"
  | JObj "(string \<times> jsval) list"

type_synonym jsobj = "(string \<times> jsval) list"

text \<open>\<^verbatim>\<open>obj.key\<close> on an object, for a key that no prototype defines.\<close>

definition get_prop :: "jsobj \<Rightarrow> string \<Rightarrow> jsval" where
  "get_prop obj k = (case map_of obj k of None \<Rightarrow> JUndefined | Some v \<Rightarrow> v)"

text \<open>\<^verbatim>\<open>obj.key = v\<close>: an existing key keeps its place, a new one goes last.\<close>

definition set_prop :: "jsobj \<Rightarrow> string \<Rightarrow> jsval \<Rightarrow> jsobj" where
  "set_prop obj k v = AList.update k v obj"

fun truthy :: "jsval \<Rightarrow> bool" where
  "truthy JUndefined = False"
| "truthy JNull = False"
| "truthy (JBool b) = b"
| "truthy (JNum n) = (n \<noteq> 0)"
| "truthy (JStr s) = (s \<noteq> [])"
| "truthy (JArr xs) = True"
| "truthy (JObj kvs) = True"

text \<open>\<^verbatim>\<open>a || b\<close>\<close>

definition js_or :: "jsval \<Rightarrow> jsval \<Rightarrow> jsval" where
  "js_or a b = (if truthy a then a else b)"

text \<open>\<^verbatim>\<open>typeof v === 'number'\<close>, \<^verbatim>\<open>typeof v === 'boolean'\<close>, \<^verbatim>\<open>Array.isArray(v)\<close>\<close>

fun is_number :: "jsval \<Rightarrow> bool" where
  "is_number (JNum n) = True"
| "is_number v = False"

fun is_boolean :: "jsval \<Rightarrow> bool" where
  "is_boolean (JBool b) = True"
| "is_boolean v = False"

fun isArray :: "jsval \<Rightarrow> bool" where
  "isArray (JArr xs) = True"
| "isArray v = False"

text \<open>
  An error thrown inside \<^verbatim>\<open>parseAmazonProduct\<close>: an \<^verbatim>\<open>Error\<close> with its message, or a
  \<^verbatim>\<open>TypeError\<close> (of reading a property of \<^verbatim>\<open>null\<close>, or of converting an object to a
  string).
\<close>

datatype js_error = Error string | TypeError

text \<open>
  \<^verbatim>\<open>RegExp.prototype.test\<close> converts its argument to a string first.  \<open>toStr\<close> is that
  conversion on the values \<^verbatim>\<open>JSON.parse\<close> returns; the decimal form of a number is the
  parameter \<open>numToString\<close>.  An array is its elements joined by commas, \<^verbatim>\<open>null\<close> and
  \<^verbatim>\<open>undefined\<close> elements as empty strings.  An object without a key \<^verbatim>\<open>toString\<close> of its
  own is \<^verbatim>\<open>[object Object]\<close>.  The conversion of an object with an own key \<^verbatim>\<open>toString\<close>
  throws a \<^verbatim>\<open>TypeError\<close>: the value under the key is no function, and neither an own
  \<^verbatim>\<open>valueOf\<close> nor the inherited one gives a primitive value.
\<close>

fun join_comma :: "string list \<Rightarrow> string" where
  "join_comma [] = []"
| "join_comma [s] = s"
| "join_comma (s # t # ss) = s @ '','' @ join_comma (t # ss)"

text \<open>The results of a loop whose body may throw: the first error ends it.\<close>

fun collect :: "(js_error + 'a) list \<Rightarrow> js_error + 'a list" where
  "collect [] = Inr []"
| "collect (Inl e # rs) = Inl e"
| "collect (Inr v # rs) = (case collect rs of Inl e \<Rightarrow> Inl e | Inr vs \<Rightarrow> Inr (v # vs))"

fun toStr :: "(rat \<Rightarrow> string) \<Rightarrow> jsval \<Rightarrow> js_error + string" where
  "toStr numToString JUndefined = Inr ''undefined''"
| "toStr numToString JNull = Inr ''null''"
| "toStr numToString (JBool b) = Inr (if b then ''true'' else ''false'')"
| "toStr numToString (JNum n) = Inr (numToString n)"
| "toStr numToString (JStr s) = Inr s"
| "toStr numToString (JArr xs) =
     (case collect (map (\<lambda>x. if x = JNull \<or> x = JUndefined then Inr []
                              else toStr numToString x) xs) of
        Inl e \<Rightarrow> Inl e
      | Inr ss \<Rightarrow> Inr (join_comma ss))"
| "toStr numToString (JObj kvs) =
     (if map_of kvs ''toString'' = None then Inr ''[object Object]'' else Inl TypeError)"

text \<open>\<^verbatim>\<open>re.test(v)\<close> on a value.\<close>

definition regex_test_value :: "(rat \<Rightarrow> string) \<Rightarrow> regex \<Rightarrow> jsval \<Rightarrow> js_error + bool" where
  "regex_test_value numToString re v =
     (case toStr numToString v of Inl e \<Rightarrow> Inl e | Inr s \<Rightarrow> Inr (regex_test re s))"

text \<open>
  The values whose conversion to a string throws: an object with an own key \<^verbatim>\<open>toString\<close>,
  and an array that holds such a value.
\<close>

fun toStr_raises :: "jsval \<Rightarrow> bool" where
  "toStr_raises (JObj kvs) = (map_of kvs ''toString'' \<noteq> None)"
| "toStr_raises (JArr xs) = list_ex toStr_raises xs"
| "toStr_raises v = False"

section \<open>schema.js: validateProductData\<close>

text \<open>\<^verbatim>\<open>/^[A-Z0-9]{10}$/\<close>\<close>

definition re_asin :: regex where
  "re_asin = (True, replicate 10 (Single UpperDigit) @ [Eos])"

text \<open>\<^verbatim>\<open>typeof v !== 'number' || v < lo || v > hi\<close>\<close>

definition not_number_in :: "jsval \<Rightarrow> rat \<Rightarrow> rat \<Rightarrow> bool" where
  "not_number_in v lo hi = (case v of JNum n \<Rightarrow> n < lo \<or> n > hi | _ \<Rightarrow> True)"

text \<open>
  Lines 126-154.  The test of line 129, \<^verbatim>\<open>data.asin && !/^[A-Z0-9]{10}$/.test(data.asin)\<close>,
  is the only place that can throw; the list of the violations is returned otherwise.
\<close>

definition validateProductData :: "(rat \<Rightarrow> string) \<Rightarrow> jsobj \<Rightarrow> js_error + string list" where
  "validateProductData numToString data =
     (case (if truthy (get_prop data ''asin'')
            then (case regex_test_value numToString re_asin (get_prop data ''asin'') of
                    Inl e \<Rightarrow> Inl e
                  | Inr matches \<Rightarrow> Inr (\<not> matches))
            else Inr False) of
        Inl e \<Rightarrow> Inl e
      | Inr asinFails \<Rightarrow> Inr (
          (if asinFails then [''ASIN must be 10 alphanumeric characters''] else [])
        @ (if truthy (get_prop data ''type'')
              \<and> get_prop data ''type''
                  \<notin> set [JStr ''wrapping_paper'', JStr ''ribbon'', JStr ''box'', JStr ''tag'',
                         JStr ''bow'']
           then [''Type must be one of: wrapping_paper, ribbon, box, tag, bow''] else [])
        @ (if get_prop data ''price'' \<noteq> JNull
              \<and> not_number_in (get_prop data ''price'') 0 100000
           then [''Price must be a number between 0 and 100000''] else [])
        @ (if get_prop data ''quantity'' \<noteq> JNull
              \<and> not_number_in (get_prop data ''quantity'') 0 100000
           then [''Quantity must be a number between 0 and 100000''] else [])
        @ (if get_prop data ''rollWidth'' \<noteq> JNull
              \<and> not_number_in (get_prop data ''rollWidth'') 0 100
           then [''Roll width must be a number between 0 and 100''] else [])
        @ (if get_prop data ''rollLength'' \<noteq> JNull
              \<and> not_number_in (get_prop data ''rollLength'') 0 100
           then [''Roll length must be a number between 0 and 100''] else [])))"

section \<open>parser.js, extractProductText: the product details\<close>

text \<open>
  The patterns of lines 57-88, all but the last with the \<^verbatim>\<open>i\<close> flag:
  \<^verbatim>\<open><div[^>]*id=["']NAME["'][^>]*>([\s\S]*?)<\/div>\<close> for the two containers,
  \<^verbatim>\<open><table[^>]*id=["']productDetails[^>]*>([\s\S]*?)<\/table>\<close>,
  \<^verbatim>\<open><table[^>]*>([\s\S]*?)<\/table>\<close>, the same for \<^verbatim>\<open>tr\<close> and \<^verbatim>\<open>td\<close>, and
  \<^verbatim>\<open><[^>]+>\<close> for a tag.
\<close>

definition quote :: cls where
  "quote = AnyOf [CHR 0x22, CHR 0x27]"

definition re_div_id :: "string \<Rightarrow> regex" where
  "re_div_id name =
     (False, litI ''<div'' @ [Star (NotCh CHR ''>'')] @ litI ''id='' @ [Single quote] @ litI name
             @ [Single quote, Star (NotCh CHR ''>'')] @ litI ''>''
             @ [Open, Lazy AnyCh, Close] @ litI ''</div>'')"

definition re_table_productDetails :: regex where
  "re_table_productDetails =
     (False, litI ''<table'' @ [Star (NotCh CHR ''>'')] @ litI ''id='' @ [Single quote]
             @ litI ''productDetails'' @ [Star (NotCh CHR ''>'')] @ litI ''>''
             @ [Open, Lazy AnyCh, Close] @ litI ''</table>'')"

definition re_table :: regex where
  "re_table = (False, litI ''<table'' @ [Star (NotCh CHR ''>'')] @ litI ''>''
                      @ [Open, Lazy AnyCh, Close] @ litI ''</table>'')"

definition re_tr :: regex where
  "re_tr = (False, litI ''<tr'' @ [Star (NotCh CHR ''>'')] @ litI ''>''
                   @ [Open, Lazy AnyCh, Close] @ litI ''</tr>'')"

definition re_td :: regex where
  "re_td = (False, litI ''<td'' @ [Star (NotCh CHR ''>'')] @ litI ''>''
                   @ [Open, Lazy AnyCh, Close] @ litI ''</td>'')"

definition re_tag :: regex where
  "re_tag = (False, lit ''<'' @ [Single (NotCh CHR ''>''), Star (NotCh CHR ''>'')] @ lit ''>'')"

text \<open>
  Lines 64-68 and 85-89: the heading and the value of a row, when it has two cells and
  neither text is empty.
\<close>

definition rowCells :: "string \<Rightarrow> (string \<times> string) option" where
  "rowCells tr =
     (let tdMatches = matchAll (snd re_td) tr
      in if length tdMatches \<ge> 2
         then (let heading = trim (removeAll (snd re_tag) (tdMatches ! 0));
                   val = trim (removeAll (snd re_tag) (tdMatches ! 1))
               in if heading \<noteq> [] \<and> val \<noteq> [] then Some (heading, val) else None)
         else None)"

text \<open>
  \<^verbatim>\<open>extracted.productDetails[heading] = value\<close> on the plain object: the value of a heading
  that is there already is replaced, a new heading is added.  Assigning a string to
  \<^verbatim>\<open>__proto__\<close> changes nothing.
\<close>

definition assignDetail :: "(string \<times> string) list \<Rightarrow> string \<Rightarrow> string \<Rightarrow> (string \<times> string) list" where
  "assignDetail details heading val =
     (if heading = ''__proto__'' then details else AList.update heading val details)"

text \<open>The loops of lines 63-72 and 84-93 over the rows.\<close>

fun detailRows :: "string list \<Rightarrow> (string \<times> string) list \<Rightarrow> (string \<times> string) list" where
  "detailRows [] details = details"
| "detailRows (tr # trs) details =
     (case rowCells tr of
        Some (heading, val) \<Rightarrow> detailRows trs (assignDetail details heading val)
      | None \<Rightarrow> detailRows trs details)"

text \<open>Lines 57-61: the rows of the table inside the \<^verbatim>\<open>poExpander\<close> container.\<close>

definition primaryRows :: "string \<Rightarrow> string list option" where
  "primaryRows html =
     (case exec (re_div_id ''poExpander'') html of
        None \<Rightarrow> None
      | Some (pre, w, poExpander, rest) \<Rightarrow>
          (case exec re_table poExpander of
             None \<Rightarrow> None
           | Some (pre', w', tableMatch, rest') \<Rightarrow> Some (matchAll (snd re_tr) tableMatch)))"

text \<open>
  Lines 77-82: the rows of the \<^verbatim>\<open>prodDetails\<close> container, or else of the
  \<^verbatim>\<open>productDetails\<close> table; inside it, of its first table, or else of all of it.
\<close>

definition fallbackRows :: "string \<Rightarrow> string list option" where
  "fallbackRows html =
     (case (case exec (re_div_id ''prodDetails'') html of
              Some m \<Rightarrow> Some m
            | None \<Rightarrow> exec re_table_productDetails html) of
        None \<Rightarrow> None
      | Some (pre, w, prodDetails, rest) \<Rightarrow>
          (let tableMatch = (case exec re_table prodDetails of
                               Some (pre', w', t, rest') \<Rightarrow> t
                             | None \<Rightarrow> prodDetails)
           in if tableMatch \<noteq> [] then Some (matchAll (snd re_tr) tableMatch) else None))"

text \<open>
  Lines 56-95: the \<^verbatim>\<open>productDetails\<close> field of the result of \<^verbatim>\<open>extractProductText\<close>
  (steps 1 to 3 of that function write its other fields only).
\<close>

definition extractProductDetails :: "string \<Rightarrow> (string \<times> string) list option" where
  "extractProductDetails html =
     (let productDetails = (case primaryRows html of
                              None \<Rightarrow> None
                            | Some trMatches \<Rightarrow> Some (detailRows trMatches []))
      in case fallbackRows html of
           None \<Rightarrow> productDetails
         | Some trMatches \<Rightarrow>
             Some (detailRows trMatches
                     (case productDetails of None \<Rightarrow> [] | Some details \<Rightarrow> details)))"

text \<open>The headings and values the rows give, in document order.\<close>

definition rowPairs :: "string list \<Rightarrow> (string \<times> string) list" where
  "rowPairs trs = List.map_filter rowCells trs"

section \<open>parser.js, parseAmazonProduct: from the completion text to the JSON text\<close>

text \<open>
  Lines 242-254.  The three patterns that strip a code fence,
  \<^verbatim>\<open>/^```json\s*/i\<close>, \<^verbatim>\<open>/^```\s*/i\<close> and \<^verbatim>\<open>/\s*```$/i\<close>, and the pattern of the JSON
  object, \<^verbatim>\<open>/\{[\s\S]*\}/\<close>.
\<close>

definition re_fence_json :: regex where
  "re_fence_json = (True, litI ''```json'' @ [Star Space])"

definition re_fence_open :: regex where
  "re_fence_open = (True, litI ''```'' @ [Star Space])"

definition re_fence_close :: regex where
  "re_fence_close = (False, [Star Space] @ litI ''```'' @ [Eos])"

definition re_json_object :: regex where
  "re_json_object = (False, [Single (Ch CHR ''{''), Star AnyCh, Single (Ch CHR ''}'')])"

definition no_json_message :: string where
  "no_json_message = ''No JSON object found in Ollama response''"

definition findJsonText :: "string \<Rightarrow> js_error + string" where
  "findJsonText responseText =
     (let jsonText = trim responseText;
          jsonText = replace_first re_fence_close
                       (replace_first re_fence_open (replace_first re_fence_json jsonText))
      in case exec re_json_object jsonText of
           None \<Rightarrow> Inl (Error no_json_message)
         | Some (pre, jsonMatch, g, rest) \<Rightarrow> Inr jsonMatch)"

section \<open>parser.js, parseAmazonProduct: from the parsed completion to the record\<close>

text \<open>
  The caller's ASIN and URL (\<^verbatim>\<open>productAsin\<close>, \<^verbatim>\<open>productUrl\<close>) are strings or absent.
  \<open>fallback_val\<close> is the value of such a variable, \<open>template_dp\<close> the template literal
  \<^verbatim>\<open>`https://www.amazon.com/dp/${productAsin}`\<close>.
\<close>

definition fallback_val :: "string option \<Rightarrow> jsval" where
  "fallback_val x = (case x of None \<Rightarrow> JNull | Some s \<Rightarrow> JStr s)"

definition template_dp :: "string option \<Rightarrow> jsval" where
  "template_dp productAsin =
     JStr (''https://www.amazon.com/dp/'' @ (case productAsin of None \<Rightarrow> ''null'' | Some a \<Rightarrow> a))"

text \<open>Lines 268-283: ensure ASIN is set, ensure URL is set, ensure images array exists.\<close>

definition ensureFields :: "jsobj \<Rightarrow> string option \<Rightarrow> string option \<Rightarrow> jsobj" where
  "ensureFields productData productAsin productUrl =
     (let d1 = (if \<not> truthy (get_prop productData ''asin'') \<and> truthy (fallback_val productAsin)
                then set_prop productData ''asin'' (fallback_val productAsin)
                else productData);
          d2 = (if \<not> truthy (get_prop d1 ''url'') \<and> truthy (fallback_val productUrl)
                then set_prop d1 ''url'' (fallback_val productUrl)
                else if \<not> truthy (get_prop d1 ''url'') \<and> truthy (fallback_val productAsin)
                then set_prop d1 ''url'' (template_dp productAsin)
                else d1)
      in if \<not> isArray (get_prop d2 ''images'') then set_prop d2 ''images'' (JArr []) else d2)"

text \<open>Line 293: \<^verbatim>\<open>productData.title || productData.price !== null || productData.brand\<close>\<close>

definition hasProductData :: "jsobj \<Rightarrow> bool" where
  "hasProductData productData =
     (truthy (get_prop productData ''title'') \<or> get_prop productData ''price'' \<noteq> JNull
      \<or> truthy (get_prop productData ''brand''))"

definition blocked_message :: string where
  "blocked_message = ''Amazon blocked the request. This often happens with automated requests. Try again later or use a different method to access the product page.''"

text \<open>Lines 298-299: the two block-page phrases looked for in the lower-cased HTML.\<close>

definition blockPage :: "string \<Rightarrow> bool" where
  "blockPage productHtml =
     (let htmlLower = toLowerCase productHtml
      in str_includes htmlLower ''continue shopping''
         \<or> str_includes htmlLower ''click the button below'')"

text \<open>Lines 305-322: the object literal \<^verbatim>\<open>cleanedData\<close>.\<close>

definition defined_or_null :: "jsval \<Rightarrow> jsval" where
  "defined_or_null v = (if v \<noteq> JUndefined then v else JNull)"

definition array_null_or_empty :: "jsval \<Rightarrow> jsval" where
  "array_null_or_empty v = (if isArray v then v else (if v = JNull then JNull else JArr []))"

definition cleanedData :: "jsobj \<Rightarrow> string option \<Rightarrow> jsobj" where
  "cleanedData productData productAsin =
     [(''asin'', js_or (get_prop productData ''asin'') JNull),
      (''type'', js_or (get_prop productData ''type'') JNull),
      (''title'', js_or (get_prop productData ''title'') JNull),
      (''price'', defined_or_null (get_prop productData ''price'')),
      (''brand'', js_or (get_prop productData ''brand'') JNull),
      (''description'', js_or (get_prop productData ''description'') JNull),
      (''size'', js_or (get_prop productData ''size'') JNull),
      (''quantity'', defined_or_null (get_prop productData ''quantity'')),
      (''dimensions'', js_or (get_prop productData ''dimensions'') JNull),
      (''rollLength'', defined_or_null (get_prop productData ''rollLength'')),
      (''rollWidth'', defined_or_null (get_prop productData ''rollWidth'')),
      (''printNames'', array_null_or_empty (get_prop productData ''printNames'')),
      (''rolls'', array_null_or_empty (get_prop productData ''rolls'')),
      (''thumbnail'', js_or (get_prop productData ''thumbnail'') JNull),
      (''images'', (if isArray (get_prop productData ''images'') then get_prop productData ''images''
                    else JArr [])),
      (''url'', js_or (get_prop productData ''url'')
                  (if truthy (fallback_val productAsin) then template_dp productAsin else JNull))]"

text \<open>
  Lines 326-334: the callback of \<^verbatim>\<open>rolls.map\<close>.  \<open>member\<close> is \<^verbatim>\<open>roll.key\<close> for a roll
  that is not \<^verbatim>\<open>null\<close>: an object's own property, \<^verbatim>\<open>undefined\<close> on a number, a string,
  a boolean or an array (none of the seven keys is a property of those).  On \<^verbatim>\<open>null\<close> the
  first read, \<^verbatim>\<open>roll.rollNumber\<close>, throws.
\<close>

definition member :: "jsval \<Rightarrow> string \<Rightarrow> jsval" where
  "member v k = (case v of JObj kvs \<Rightarrow> get_prop kvs k | _ \<Rightarrow> JUndefined)"

definition coerceRoll :: "nat \<Rightarrow> jsval \<Rightarrow> js_error + jsval" where
  "coerceRoll index roll =
     (if roll = JNull \<or> roll = JUndefined then Inl TypeError
      else Inr (JObj
        [(''rollNumber'', (if is_number (member roll ''rollNumber'') then member roll ''rollNumber''
                           else JNum (of_nat index + 1))),
         (''onHand'', (if is_number (member roll ''onHand'') then member roll ''onHand''
                       else JNum 0)),
         (''maxArea'', (if is_number (member roll ''maxArea'') then member roll ''maxArea''
                        else js_or (member roll ''onHand'') (JNum 0))),
         (''image'', js_or (member roll ''image'') JNull),
         (''printName'', js_or (member roll ''printName'') JNull),
         (''hasReverseSide'', (if is_boolean (member roll ''hasReverseSide'')
                               then member roll ''hasReverseSide'' else JBool False)),
         (''pairedRollNumber'', (if is_number (member roll ''pairedRollNumber'')
                                 then member roll ''pairedRollNumber'' else JNull))]))"

text \<open>\<^verbatim>\<open>rolls.map((roll, index) => ...)\<close> from \<open>index\<close> on; the first throw ends it.\<close>

fun coerceRolls :: "nat \<Rightarrow> jsval list \<Rightarrow> js_error + jsval list" where
  "coerceRolls index [] = Inr []"
| "coerceRolls index (roll # rolls) =
     (case coerceRoll index roll of
        Inl e \<Rightarrow> Inl e
      | Inr r \<Rightarrow> (case coerceRolls (Suc index) rolls of
                    Inl e \<Rightarrow> Inl e
                  | Inr rs \<Rightarrow> Inr (r # rs)))"

text \<open>Lines 304-337: clean and normalize, then validate the rolls array.\<close>

definition cleanAndNormalize :: "jsobj \<Rightarrow> string option \<Rightarrow> js_error + jsobj" where
  "cleanAndNormalize productData productAsin =
     (let cleaned = cleanedData productData productAsin
      in case get_prop cleaned ''rolls'' of
           JArr rolls \<Rightarrow>
             (case coerceRolls 0 rolls of
                Inl e \<Rightarrow> Inl e
              | Inr rs \<Rightarrow> Inr (set_prop cleaned ''rolls'' (JArr rs)))
         | _ \<Rightarrow> Inr cleaned)"

text \<open>
  Lines 268-337, the body of the \<^verbatim>\<open>try\<close> after \<^verbatim>\<open>JSON.parse\<close>.  The violations that
  \<^verbatim>\<open>validateProductData\<close> returns at line 286 are only logged; an error it throws ends the
  body.
\<close>

definition normalizeProduct ::
  "(rat \<Rightarrow> string) \<Rightarrow> jsobj \<Rightarrow> string option \<Rightarrow> string option \<Rightarrow> string
     \<Rightarrow> js_error + jsobj" where
  "normalizeProduct numToString parsed productAsin productUrl productHtml =
     (let productData = ensureFields parsed productAsin productUrl
      in case validateProductData numToString productData of
           Inl e \<Rightarrow> Inl e
         | Inr validationErrors \<Rightarrow>
             if \<not> hasProductData productData \<and> blockPage productHtml
             then Inl (Error blocked_message)
             else cleanAndNormalize productData productAsin)"

text \<open>
  Lines 338-354, the \<^verbatim>\<open>catch\<close>: an error whose message names a header timeout, Ollama,
  the model or a timeout is wrapped; any other is thrown again as it is.  No error thrown
  by the body itself carries a \<^verbatim>\<open>code\<close> or a \<^verbatim>\<open>cause\<close>, and the engine's messages for the
  two kinds of \<^verbatim>\<open>TypeError\<close> (a property read of \<^verbatim>\<open>null\<close>, an object that cannot be
  converted to a primitive value) contain none of the words.
\<close>

definition catchHandler :: "js_error \<Rightarrow> js_error" where
  "catchHandler e =
     (case e of
        TypeError \<Rightarrow> TypeError
      | Error message \<Rightarrow>
          if str_includes message ''Headers Timeout''
          then Error (''Ollama request timed out: The model took too long to respond. Try again or use a faster model. Original error: '' @ message)
          else if str_includes message ''Ollama'' \<or> str_includes message ''model''
                  \<or> str_includes message ''timeout''
          then Error (''Ollama API error: '' @ message)
          else Error message)"

definition caught :: "js_error + 'a \<Rightarrow> js_error + 'a" where
  "caught res = (case res of Inl e \<Rightarrow> Inl (catchHandler e) | Inr v \<Rightarrow> Inr v)"

text \<open>
  Lines 242-354: the \<^verbatim>\<open>try\<close> from the completion text on, with its \<^verbatim>\<open>catch\<close>.
  \<^verbatim>\<open>JSON.parse\<close> is a parameter: it returns the parsed object, or the message of its
  \<^verbatim>\<open>SyntaxError\<close>.  (A text that starts with \<^verbatim>\<open>{\<close> parses to an object or not at all.)
\<close>

definition resolveResponse ::
  "(string \<Rightarrow> string + jsobj) \<Rightarrow> (rat \<Rightarrow> string) \<Rightarrow> string \<Rightarrow> string option
     \<Rightarrow> string option \<Rightarrow> string \<Rightarrow> js_error + jsobj" where
  "resolveResponse JSON_parse numToString responseText productAsin productUrl productHtml =
     caught
       (case findJsonText responseText of
          Inl e \<Rightarrow> Inl e
        | Inr jsonText \<Rightarrow>
            (case JSON_parse jsonText of
               Inl parseError \<Rightarrow> Inl (Error (''Failed to parse JSON response: '' @ parseError))
             | Inr productData \<Rightarrow>
                 normalizeProduct numToString productData productAsin productUrl
                   productHtml))"

section \<open>Examples\<close>

text \<open>A record whose other fields are \<^verbatim>\<open>null\<close>, for the examples below.\<close>

definition rec_of :: "jsval \<Rightarrow> jsval \<Rightarrow> jsval \<Rightarrow> jsval \<Rightarrow> jsval \<Rightarrow> jsval \<Rightarrow> jsobj" where
  "rec_of asin title price printNames rolls url =
     [(''asin'', asin), (''type'', JNull), (''title'', title), (''price'', price),
      (''brand'', JNull), (''description'', JNull), (''size'', JNull), (''quantity'', JNull),
      (''dimensions'', JNull), (''rollLength'', JNull), (''rollWidth'', JNull),
      (''printNames'', printNames), (''rolls'', rolls), (''thumbnail'', JNull),
      (''images'', JArr []), (''url'', url)]"

definition example_html :: string where
  "example_html =
     ''<div id=\"poExpander\"><table><tr><td>Brand</td><td> Hallmark </td></tr></table></div><div id=\"prodDetails\"><tr><td><b>Brand</b></td><td>Generic</td></tr></div>''"

section \<open>C1: the product details of two containers\<close>

lemma rowPairs_Cons:
  "rowPairs (tr # trs) = (case rowCells tr of None \<Rightarrow> rowPairs trs | Some hv \<Rightarrow> hv # rowPairs trs)"
  by (cases "rowCells tr") (simp_all add: rowPairs_def)

lemma detailRows_map_of:
  "h \<noteq> ''__proto__'' \<Longrightarrow>
   map_of (detailRows trs details) h = (map_of details ++ map_of (rev (rowPairs trs))) h"
proof (induction trs arbitrary: details)
  case Nil
  then show ?case by (simp add: rowPairs_def)
next
  case (Cons tr trs)
  show ?case
  proof (cases "rowCells tr")
    case None
    with Cons show ?thesis by (simp add: rowPairs_Cons)
  next
    case (Some hv)
    obtain heading val where hv: "hv = (heading, val)" by (cases hv)
    show ?thesis
    proof (cases "heading = ''__proto__''")
      case True
      with Cons Some hv show ?thesis
        by (auto simp: rowPairs_Cons assignDetail_def map_add_def split: option.splits)
    next
      case False
      with Cons Some hv show ?thesis
        by (simp add: rowPairs_Cons assignDetail_def update_conv' map_add_def
            split: option.splits)
    qed
  qed
qed

text \<open>A row whose heading is \<^verbatim>\<open>__proto__\<close> leaves the mapping as it is.\<close>

lemma proto_heading_not_stored:
  "map_of (detailRows trs details) ''__proto__'' = map_of details ''__proto__''"
proof (induction trs arbitrary: details)
  case Nil
  then show ?case by simp
next
  case (Cons tr trs)
  show ?case
  proof (cases "rowCells tr")
    case None
    with Cons show ?thesis by simp
  next
    case (Some hv)
    obtain heading val where hv: "hv = (heading, val)" by (cases hv)
    have "map_of (assignDetail details heading val) ''__proto__'' = map_of details ''__proto__''"
      by (simp add: assignDetail_def update_conv')
    with Cons Some hv show ?thesis by simp
  qed
qed

lemma extractProductDetails_no_proto:
  "extractProductDetails html = Some details \<Longrightarrow> map_of details ''__proto__'' = None"
  by (auto simp: extractProductDetails_def Let_def proto_heading_not_stored
      split: option.splits)

text \<open>
  C1 (as amended).  When both containers give a row with the same heading, a heading other
  than \<^verbatim>\<open>__proto__\<close>, the extracted \<^verbatim>\<open>productDetails\<close> holds for that heading the value of
  the fallback container, of its last row with the heading: the fallback table overwrites
  what the primary table wrote.  A heading other than \<^verbatim>\<open>__proto__\<close> that only the primary
  table has keeps the primary table's value, that of its last row with the heading.
\<close>

theorem fallback_row_overwrites_primary:
  assumes "primaryRows html = Some primary"
    and "fallbackRows html = Some fallback"
    and "(heading, v1) \<in> set (rowPairs primary)"
    and "(heading, v2) \<in> set (rowPairs fallback)"
    and "heading \<noteq> ''__proto__''"
  shows "\<exists>details v. extractProductDetails html = Some details
           \<and> map_of details heading = Some v
           \<and> map_of (rev (rowPairs fallback)) heading = Some v
           \<and> (heading, v) \<in> set (rowPairs fallback)
           \<and> (\<forall>h. h \<noteq> ''__proto__'' \<and> h \<notin> fst ` set (rowPairs fallback) \<longrightarrow>
                  map_of details h = map_of (rev (rowPairs primary)) h)"
proof -
  let ?d = "detailRows fallback (detailRows primary [])"
  have ex: "extractProductDetails html = Some ?d"
    using assms(1,2) by (simp add: extractProductDetails_def)
  from assms(4) have "heading \<in> fst ` set (rev (rowPairs fallback))"
    by force
  then obtain v where v: "map_of (rev (rowPairs fallback)) heading = Some v"
    by (cases "map_of (rev (rowPairs fallback)) heading") (auto simp: map_of_eq_None_iff)
  then have "(heading, v) \<in> set (rowPairs fallback)"
    by (auto dest: map_of_SomeD)
  moreover have "map_of ?d heading = Some v"
    using v assms(5) by (simp add: detailRows_map_of map_add_def)
  moreover have "map_of ?d h = map_of (rev (rowPairs primary)) h"
    if "h \<noteq> ''__proto__'' \<and> h \<notin> fst ` set (rowPairs fallback)" for h
  proof -
    from that have "map_of (rev (rowPairs fallback)) h = None"
      by (simp add: map_of_eq_None_iff)
    with that show ?thesis
      by (simp add: detailRows_map_of map_add_def)
  qed
  ultimately show ?thesis using ex v by blast
qed

text \<open>
  C1 as stated fails: the primary table gives \<^verbatim>\<open>Brand: Hallmark\<close>, the fallback container
  \<^verbatim>\<open>Brand: Generic\<close>, and the extracted mapping holds \<^verbatim>\<open>Generic\<close>.
\<close>

theorem fallback_value_replaces_primary_value:
  "map_option rowPairs (primaryRows example_html) = Some [(''Brand'', ''Hallmark'')]
   \<and> map_option rowPairs (fallbackRows example_html) = Some [(''Brand'', ''Generic'')]
   \<and> extractProductDetails example_html = Some [(''Brand'', ''Generic'')]"
  by code_simp

theorem fallback_row_overwrites_primary_witness:
  "extractProductDetails
     ''<div id=\"poExpander\"><table><tr><td>Size</td><td>30 in</td></tr></table></div><table id=\"productDetails\"><tr><td>Size</td><td>40 in</td></tr></table>''
   = Some [(''Size'', ''40 in'')]"
proof -
  let ?html = "''<div id=\"poExpander\"><table><tr><td>Size</td><td>30 in</td></tr></table></div><table id=\"productDetails\"><tr><td>Size</td><td>40 in</td></tr></table>''"
  have p: "primaryRows ?html = Some [''<td>Size</td><td>30 in</td>'']"
    by code_simp
  have f: "fallbackRows ?html = Some [''<td>Size</td><td>40 in</td>'']"
    by code_simp
  have pp: "(''Size'', ''30 in'') \<in> set (rowPairs [''<td>Size</td><td>30 in</td>''])"
    by code_simp
  have fp: "(''Size'', ''40 in'') \<in> set (rowPairs [''<td>Size</td><td>40 in</td>''])"
    by code_simp
  have h: "''Size'' \<noteq> ''__proto__''"
    by simp
  have run: "extractProductDetails ?html = Some [(''Size'', ''40 in'')]"
    by code_simp
  from fallback_row_overwrites_primary [OF p f pp fp h] run show ?thesis
    by simp
qed

section \<open>Facts about the normalization stages\<close>

lemma get_prop_set_prop:
  "get_prop (set_prop obj k v) k' = (if k' = k then v else get_prop obj k')"
  by (simp add: get_prop_def set_prop_def update_conv')

lemma ensureFields_other:
  "k \<noteq> ''asin'' \<Longrightarrow> k \<noteq> ''url'' \<Longrightarrow> k \<noteq> ''images''
   \<Longrightarrow> get_prop (ensureFields pd a u) k = get_prop pd k"
  by (simp add: ensureFields_def Let_def get_prop_set_prop)

lemma ensureFields_asin:
  "get_prop (ensureFields pd a u) ''asin'' =
     (if \<not> truthy (get_prop pd ''asin'') \<and> truthy (fallback_val a) then fallback_val a
      else get_prop pd ''asin'')"
  by (simp add: ensureFields_def Let_def get_prop_set_prop)

lemma ensureFields_url:
  "get_prop (ensureFields pd a u) ''url'' =
     (if truthy (get_prop pd ''url'') then get_prop pd ''url''
      else if truthy (fallback_val u) then fallback_val u
      else if truthy (fallback_val a) then template_dp a
      else get_prop pd ''url'')"
  by (simp add: ensureFields_def Let_def get_prop_set_prop)

lemma ensureFields_images:
  "get_prop (ensureFields pd a u) ''images'' =
     (if isArray (get_prop pd ''images'') then get_prop pd ''images'' else JArr [])"
  by (simp add: ensureFields_def Let_def get_prop_set_prop)

lemma cleanedData_keys:
  "map fst (cleanedData d a) =
     [''asin'', ''type'', ''title'', ''price'', ''brand'', ''description'', ''size'',
      ''quantity'', ''dimensions'', ''rollLength'', ''rollWidth'', ''printNames'', ''rolls'',
      ''thumbnail'', ''images'', ''url'']"
  by (simp add: cleanedData_def)

lemma cleanedData_or_fields:
  "get_prop (cleanedData d a) ''asin'' = js_or (get_prop d ''asin'') JNull"
  "get_prop (cleanedData d a) ''type'' = js_or (get_prop d ''type'') JNull"
  "get_prop (cleanedData d a) ''title'' = js_or (get_prop d ''title'') JNull"
  "get_prop (cleanedData d a) ''brand'' = js_or (get_prop d ''brand'') JNull"
  "get_prop (cleanedData d a) ''description'' = js_or (get_prop d ''description'') JNull"
  "get_prop (cleanedData d a) ''size'' = js_or (get_prop d ''size'') JNull"
  "get_prop (cleanedData d a) ''dimensions'' = js_or (get_prop d ''dimensions'') JNull"
  "get_prop (cleanedData d a) ''thumbnail'' = js_or (get_prop d ''thumbnail'') JNull"
  by (simp_all add: cleanedData_def get_prop_def)

lemma cleanedData_defined_fields:
  "get_prop (cleanedData d a) ''price'' = defined_or_null (get_prop d ''price'')"
  "get_prop (cleanedData d a) ''quantity'' = defined_or_null (get_prop d ''quantity'')"
  "get_prop (cleanedData d a) ''rollLength'' = defined_or_null (get_prop d ''rollLength'')"
  "get_prop (cleanedData d a) ''rollWidth'' = defined_or_null (get_prop d ''rollWidth'')"
  by (simp_all add: cleanedData_def get_prop_def)

lemma cleanedData_array_fields:
  "get_prop (cleanedData d a) ''printNames'' = array_null_or_empty (get_prop d ''printNames'')"
  "get_prop (cleanedData d a) ''rolls'' = array_null_or_empty (get_prop d ''rolls'')"
  "get_prop (cleanedData d a) ''images'' =
     (if isArray (get_prop d ''images'') then get_prop d ''images'' else JArr [])"
  by (simp_all add: cleanedData_def get_prop_def)

lemma cleanedData_url:
  "get_prop (cleanedData d a) ''url'' =
     js_or (get_prop d ''url'') (if truthy (fallback_val a) then template_dp a else JNull)"
  by (simp add: cleanedData_def get_prop_def)

lemma coerceRolls_length: "coerceRolls i xs = Inr ys \<Longrightarrow> length ys = length xs"
  by (induction xs arbitrary: i ys) (auto split: sum.splits)

lemma coerceRolls_nth:
  "coerceRolls i xs = Inr ys \<Longrightarrow> j < length xs \<Longrightarrow> coerceRoll (i + j) (xs ! j) = Inr (ys ! j)"
proof (induction xs arbitrary: i ys j)
  case Nil
  then show ?case by simp
next
  case (Cons x xs)
  from Cons.prems(1) obtain r rs where
    r: "coerceRoll i x = Inr r" and rs: "coerceRolls (Suc i) xs = Inr rs" and ys: "ys = r # rs"
    by (auto split: sum.splits)
  show ?case
  proof (cases j)
    case 0
    with r ys show ?thesis by simp
  next
    case (Suc n)
    with Cons.prems(2) have "n < length xs" by simp
    from Cons.IH [OF rs this] Suc ys show ?thesis by simp
  qed
qed

lemma cleanAndNormalize_other:
  "cleanAndNormalize d a = Inr r \<Longrightarrow> k \<noteq> ''rolls''
   \<Longrightarrow> get_prop r k = get_prop (cleanedData d a) k"
  by (auto simp: cleanAndNormalize_def Let_def get_prop_set_prop split: jsval.splits sum.splits)

lemma cleanAndNormalize_rolls:
  "cleanAndNormalize d a = Inr r \<Longrightarrow>
   (case get_prop (cleanedData d a) ''rolls'' of
      JArr xs \<Rightarrow> (\<exists>ys. coerceRolls 0 xs = Inr ys \<and> get_prop r ''rolls'' = JArr ys)
    | v \<Rightarrow> get_prop r ''rolls'' = v)"
  by (auto simp: cleanAndNormalize_def Let_def get_prop_set_prop split: jsval.splits sum.splits)

lemma set_prop_keys_present:
  "k \<in> set (map fst obj) \<Longrightarrow> map fst (set_prop obj k v) = map fst obj"
  by (simp add: set_prop_def update_keys)

lemma cleanAndNormalize_keys:
  "cleanAndNormalize d a = Inr r \<Longrightarrow> map fst r = map fst (cleanedData d a)"
  by (auto simp: cleanAndNormalize_def Let_def set_prop_keys_present cleanedData_keys
      split: jsval.splits sum.splits)

text \<open>When the validator throws, and when it returns.\<close>

lemma collect_Inl_mem: "collect ys = Inl e \<Longrightarrow> Inl e \<in> set ys"
  by (induction ys rule: collect.induct) (auto split: sum.splits)

lemma collect_mem_Inl: "Inl e \<in> set ys \<Longrightarrow> \<exists>e'. collect ys = Inl e'"
  by (induction ys rule: collect.induct) (auto split: sum.splits)

lemma toStr_raises_both:
  "(toStr numToString v = Inl e \<longrightarrow> e = TypeError \<and> toStr_raises v)
   \<and> (toStr_raises v \<longrightarrow> (\<exists>e'. toStr numToString v = Inl e'))"
proof (induction numToString v arbitrary: e rule: toStr.induct)
  case (6 numToString xs)
  let ?f = "\<lambda>x. if x = JNull \<or> x = JUndefined then Inr [] else toStr numToString x"
  have 1: "e = TypeError \<and> toStr_raises (JArr xs)" if "toStr numToString (JArr xs) = Inl e"
  proof -
    from that have "collect (map ?f xs) = Inl e"
      by (simp split: sum.splits)
    then have "Inl e \<in> set (map ?f xs)"
      by (rule collect_Inl_mem)
    then obtain x where x: "x \<in> set xs" "?f x = Inl e"
      by auto
    then have nn: "\<not> (x = JNull \<or> x = JUndefined)" and "toStr numToString x = Inl e"
      by (auto split: if_splits)
    with "6.IH" [OF x(1) nn] x(1) show ?thesis
      by (auto simp: list_ex_iff)
  qed
  have 2: "\<exists>e'. toStr numToString (JArr xs) = Inl e'" if "toStr_raises (JArr xs)"
  proof -
    from that obtain x where x: "x \<in> set xs" "toStr_raises x"
      by (auto simp: list_ex_iff)
    then have nn: "\<not> (x = JNull \<or> x = JUndefined)"
      by auto
    with "6.IH" [OF x(1) nn] x(2) obtain e' where "toStr numToString x = Inl e'"
      by blast
    with nn x(1) have "Inl e' \<in> set (map ?f xs)"
      by force
    from collect_mem_Inl [OF this] obtain e'' where "collect (map ?f xs) = Inl e''"
      by blast
    then show ?thesis by simp
  qed
  from 1 2 show ?case by blast
qed auto

lemma toStr_Inl: "toStr numToString v = Inl e \<Longrightarrow> e = TypeError \<and> toStr_raises v"
  using toStr_raises_both by blast

lemma toStr_raises_Inl: "toStr_raises v \<Longrightarrow> toStr numToString v = Inl TypeError"
  using toStr_raises_both by blast

lemma toStr_Inr: "\<not> toStr_raises v \<Longrightarrow> \<exists>s. toStr numToString v = Inr s"
  using toStr_Inl [of numToString v] by (cases "toStr numToString v") auto

lemma validateProductData_raises:
  "truthy (get_prop data ''asin'') \<Longrightarrow> toStr_raises (get_prop data ''asin'')
   \<Longrightarrow> validateProductData numToString data = Inl TypeError"
  by (simp add: validateProductData_def regex_test_value_def toStr_raises_Inl)

lemma validateProductData_returns:
  assumes "\<not> (truthy (get_prop data ''asin'') \<and> toStr_raises (get_prop data ''asin''))"
  shows "\<exists>errors. validateProductData numToString data = Inr errors"
proof (cases "truthy (get_prop data ''asin'')")
  case False
  then show ?thesis by (simp add: validateProductData_def)
next
  case True
  with assms toStr_Inr obtain s where "toStr numToString (get_prop data ''asin'') = Inr s"
    by blast
  with True show ?thesis
    by (simp add: validateProductData_def regex_test_value_def)
qed

lemma ensureFields_asin_raises:
  "truthy (get_prop (ensureFields pd a u) ''asin'')
     \<and> toStr_raises (get_prop (ensureFields pd a u) ''asin'')
   \<longleftrightarrow> truthy (get_prop pd ''asin'') \<and> toStr_raises (get_prop pd ''asin'')"
  by (cases a) (auto simp: ensureFields_asin fallback_val_def)

text \<open>
  The body of the \<^verbatim>\<open>try\<close> throws a \<^verbatim>\<open>TypeError\<close> at line 286 exactly when the parsed
  \<^verbatim>\<open>asin\<close> cannot be converted to a string; in every other case it goes on to the block-page
  check.
\<close>

lemma normalizeProduct_raises:
  assumes "truthy (get_prop pd ''asin'')" and "toStr_raises (get_prop pd ''asin'')"
  shows "normalizeProduct numToString pd a u html = Inl TypeError"
proof -
  from assms ensureFields_asin_raises [of pd a u]
  have "validateProductData numToString (ensureFields pd a u) = Inl TypeError"
    by (intro validateProductData_raises) auto
  then show ?thesis by (simp add: normalizeProduct_def)
qed

lemma normalizeProduct_validated:
  assumes "\<not> (truthy (get_prop pd ''asin'') \<and> toStr_raises (get_prop pd ''asin''))"
  shows "normalizeProduct numToString pd a u html =
           (if \<not> hasProductData (ensureFields pd a u) \<and> blockPage html
            then Inl (Error blocked_message)
            else cleanAndNormalize (ensureFields pd a u) a)"
proof -
  from assms ensureFields_asin_raises [of pd a u]
  have "\<not> (truthy (get_prop (ensureFields pd a u) ''asin'')
           \<and> toStr_raises (get_prop (ensureFields pd a u) ''asin''))"
    by simp
  from validateProductData_returns [OF this]
  obtain errors where "validateProductData numToString (ensureFields pd a u) = Inr errors"
    by blast
  then show ?thesis by (simp add: normalizeProduct_def)
qed

lemma normalizeProduct_Inr:
  "normalizeProduct numToString pd a u html = Inr r
   \<Longrightarrow> cleanAndNormalize (ensureFields pd a u) a = Inr r"
  by (simp add: normalizeProduct_def Let_def split: sum.splits if_splits)

lemma js_or_null_defined: "js_or v JNull \<noteq> JUndefined"
  by (cases v) (simp_all add: js_or_def)

lemma record_asin:
  assumes "normalizeProduct numToString pd a u html = Inr r"
  shows "get_prop r ''asin'' =
     (if truthy (get_prop pd ''asin'') then get_prop pd ''asin''
      else if truthy (fallback_val a) then fallback_val a else JNull)"
proof -
  from assms have cn: "cleanAndNormalize (ensureFields pd a u) a = Inr r"
    by (rule normalizeProduct_Inr)
  from cleanAndNormalize_other [OF cn, of "''asin''"] show ?thesis
    by (simp add: cleanedData_or_fields ensureFields_asin js_or_def)
qed

lemma record_url:
  assumes "normalizeProduct numToString pd a u html = Inr r"
  shows "get_prop r ''url'' =
     (if truthy (get_prop pd ''url'') then get_prop pd ''url''
      else if truthy (fallback_val u) then fallback_val u
      else if truthy (fallback_val a) then template_dp a else JNull)"
proof -
  from assms have cn: "cleanAndNormalize (ensureFields pd a u) a = Inr r"
    by (rule normalizeProduct_Inr)
  have t: "truthy (template_dp a)"
    by (simp add: template_dp_def)
  from cleanAndNormalize_other [OF cn, of "''url''"] t show ?thesis
    by (simp add: cleanedData_url ensureFields_url js_or_def)
qed

lemma defined_or_null_defined: "defined_or_null v \<noteq> JUndefined"
  by (simp add: defined_or_null_def)

lemma array_null_or_empty_cases:
  "array_null_or_empty v = JNull \<or> isArray (array_null_or_empty v)"
  by (cases v) (simp_all add: array_null_or_empty_def)

lemma array_null_or_empty_defined: "array_null_or_empty v \<noteq> JUndefined"
  by (cases v) (simp_all add: array_null_or_empty_def)

lemma js_or_defined: "b \<noteq> JUndefined \<Longrightarrow> js_or v b \<noteq> JUndefined"
  by (cases v) (simp_all add: js_or_def)

lemma isArray_defined: "isArray v \<Longrightarrow> v \<noteq> JUndefined"
  by (cases v) simp_all

lemma cleanedData_defined_all:
  "\<forall>k \<in> set (map fst (cleanedData d a)). get_prop (cleanedData d a) k \<noteq> JUndefined"
  unfolding cleanedData_keys
  by (simp add: cleanedData_or_fields cleanedData_defined_fields cleanedData_array_fields
      cleanedData_url js_or_defined defined_or_null_defined array_null_or_empty_defined
      template_dp_def isArray_defined)

lemma cleanedData_defined:
  "k \<in> set (map fst (cleanedData d a)) \<Longrightarrow> get_prop (cleanedData d a) k \<noteq> JUndefined"
  using cleanedData_defined_all [of d a] by blast

section \<open>C2: the scalar fields\<close>

text \<open>
  C2 (as amended).  In the returned record, \<^verbatim>\<open>price\<close>, \<^verbatim>\<open>quantity\<close>, \<^verbatim>\<open>rollLength\<close> and
  \<^verbatim>\<open>rollWidth\<close> equal the parsed object's value whenever the key is present, falsy
  values included, and are \<^verbatim>\<open>null\<close> when it is missing.  The fields \<^verbatim>\<open>type\<close>, \<^verbatim>\<open>title\<close>,
  \<^verbatim>\<open>brand\<close>, \<^verbatim>\<open>description\<close>, \<^verbatim>\<open>size\<close>, \<^verbatim>\<open>dimensions\<close> and \<^verbatim>\<open>thumbnail\<close> equal the
  parsed value when it is truthy and are \<^verbatim>\<open>null\<close> otherwise (missing, \<^verbatim>\<open>null\<close>, the empty
  string, \<^verbatim>\<open>0\<close>, \<^verbatim>\<open>false\<close>).  \<^verbatim>\<open>asin\<close> and \<^verbatim>\<open>url\<close> equal the parsed value when it is
  truthy, else the caller's fallback (for \<^verbatim>\<open>url\<close>: the fallback URL, else the canonical URL
  of the fallback ASIN), else \<^verbatim>\<open>null\<close>.
\<close>

theorem scalar_fields_normalized:
  assumes "normalizeProduct numToString pd a u html = Inr r"
  shows "(k \<in> {''price'', ''quantity'', ''rollLength'', ''rollWidth''} \<longrightarrow>
            get_prop r k = (if get_prop pd k = JUndefined then JNull else get_prop pd k))
       \<and> (k \<in> {''type'', ''title'', ''brand'', ''description'', ''size'', ''dimensions'',
                ''thumbnail''} \<longrightarrow>
            get_prop r k = (if truthy (get_prop pd k) then get_prop pd k else JNull))
       \<and> get_prop r ''asin'' =
            (if truthy (get_prop pd ''asin'') then get_prop pd ''asin''
             else if truthy (fallback_val a) then fallback_val a else JNull)
       \<and> get_prop r ''url'' =
            (if truthy (get_prop pd ''url'') then get_prop pd ''url''
             else if truthy (fallback_val u) then fallback_val u
             else if truthy (fallback_val a) then template_dp a else JNull)"
proof (intro conjI impI)
  from assms have cn: "cleanAndNormalize (ensureFields pd a u) a = Inr r"
    by (rule normalizeProduct_Inr)
  {
    assume k: "k \<in> {''price'', ''quantity'', ''rollLength'', ''rollWidth''}"
    then have "k \<noteq> ''rolls''" by auto
    from cleanAndNormalize_other [OF cn this] k
    show "get_prop r k = (if get_prop pd k = JUndefined then JNull else get_prop pd k)"
      by (auto simp: cleanedData_defined_fields ensureFields_other defined_or_null_def)
  }
  {
    assume k: "k \<in> {''type'', ''title'', ''brand'', ''description'', ''size'', ''dimensions'',
                ''thumbnail''}"
    then have "k \<noteq> ''rolls''" by auto
    from cleanAndNormalize_other [OF cn this] k
    show "get_prop r k = (if truthy (get_prop pd k) then get_prop pd k else JNull)"
      by (auto simp: cleanedData_or_fields ensureFields_other js_or_def)
  }
  show "get_prop r ''asin'' =
            (if truthy (get_prop pd ''asin'') then get_prop pd ''asin''
             else if truthy (fallback_val a) then fallback_val a else JNull)"
    using assms by (rule record_asin)
  show "get_prop r ''url'' =
            (if truthy (get_prop pd ''url'') then get_prop pd ''url''
             else if truthy (fallback_val u) then fallback_val u
             else if truthy (fallback_val a) then template_dp a else JNull)"
    using assms by (rule record_url)
qed

theorem scalar_fields_normalized_witness:
  "normalizeProduct (\<lambda>n. []) [(''title'', JStr ''Gift wrap''), (''price'', JNum 0), (''brand'', JBool False)]
     None None ''<html>''
     = Inr (rec_of JNull (JStr ''Gift wrap'') (JNum 0) (JArr []) (JArr []) JNull)
   \<and> get_prop (rec_of JNull (JStr ''Gift wrap'') (JNum 0) (JArr []) (JArr []) JNull) ''price''
       = JNum 0
   \<and> get_prop (rec_of JNull (JStr ''Gift wrap'') (JNum 0) (JArr []) (JArr []) JNull) ''title''
       = JStr ''Gift wrap''
   \<and> get_prop (rec_of JNull (JStr ''Gift wrap'') (JNum 0) (JArr []) (JArr []) JNull) ''brand''
       = JNull"
proof -
  let ?pd = "[(''title'', JStr ''Gift wrap''), (''price'', JNum 0), (''brand'', JBool False)]"
  have run: "normalizeProduct (\<lambda>n. []) ?pd None None ''<html>''
     = Inr (rec_of JNull (JStr ''Gift wrap'') (JNum 0) (JArr []) (JArr []) JNull)"
    by code_simp
  have price: "''price'' \<in> {''price'', ''quantity'', ''rollLength'', ''rollWidth''}"
    by simp
  have title: "''title'' \<in> {''type'', ''title'', ''brand'', ''description'', ''size'',
      ''dimensions'', ''thumbnail''}"
    by simp
  have brand: "''brand'' \<in> {''type'', ''title'', ''brand'', ''description'', ''size'',
      ''dimensions'', ''thumbnail''}"
    by simp
  from scalar_fields_normalized [OF run, of "''price''", THEN conjunct1, THEN mp, OF price]
  have 1: "get_prop (rec_of JNull (JStr ''Gift wrap'') (JNum 0) (JArr []) (JArr []) JNull)
      ''price'' = JNum 0"
    by (simp add: get_prop_def)
  from scalar_fields_normalized [OF run, of "''title''", THEN conjunct2, THEN conjunct1, THEN mp,
      OF title]
  have 2: "get_prop (rec_of JNull (JStr ''Gift wrap'') (JNum 0) (JArr []) (JArr []) JNull)
      ''title'' = JStr ''Gift wrap''"
    by (simp add: get_prop_def)
  from scalar_fields_normalized [OF run, of "''brand''", THEN conjunct2, THEN conjunct1, THEN mp,
      OF brand]
  have 3: "get_prop (rec_of JNull (JStr ''Gift wrap'') (JNum 0) (JArr []) (JArr []) JNull)
      ''brand'' = JNull"
    by (simp add: get_prop_def)
  from run 1 2 3 show ?thesis by blast
qed

text \<open>
  C2 as stated fails: a \<^verbatim>\<open>title\<close> present with the empty string as its value is not kept,
  the record holds \<^verbatim>\<open>null\<close>.
\<close>

theorem falsy_title_becomes_null:
  "get_prop [(''title'', JStr '''')] ''title'' = JStr ''''
   \<and> normalizeProduct (\<lambda>n. []) [(''title'', JStr '''')] None None ''<html>''
     = Inr [(''asin'', JNull), (''type'', JNull), (''title'', JNull), (''price'', JNull),
            (''brand'', JNull), (''description'', JNull), (''size'', JNull),
            (''quantity'', JNull), (''dimensions'', JNull), (''rollLength'', JNull),
            (''rollWidth'', JNull), (''printNames'', JArr []), (''rolls'', JArr []),
            (''thumbnail'', JNull), (''images'', JArr []), (''url'', JNull)]"
  by code_simp

section \<open>C3: the block-page check\<close>

text \<open>
  The check works when the \<^verbatim>\<open>price\<close> key is there with the value \<^verbatim>\<open>null\<close>, and is skipped
  whenever the key is missing.
\<close>

lemma caught_blocked: "catchHandler (Error blocked_message) = Error blocked_message"
  by code_simp

lemma blocked_when_price_is_null:
  assumes "\<not> truthy (get_prop pd ''title'')" and "get_prop pd ''price'' = JNull"
    and "\<not> truthy (get_prop pd ''brand'')" and "blockPage html"
    and "\<not> toStr_raises (get_prop pd ''asin'')"
  shows "caught (normalizeProduct numToString pd a u html) = Inl (Error blocked_message)"
proof -
  have "\<not> hasProductData (ensureFields pd a u)"
    using assms(1-3) by (simp add: hasProductData_def ensureFields_other)
  with assms(4,5) show ?thesis
    by (simp add: normalizeProduct_validated caught_def caught_blocked)
qed

lemma not_blocked_when_price_missing:
  assumes "get_prop pd ''price'' = JUndefined"
    and "\<not> toStr_raises (get_prop pd ''asin'')"
  shows "normalizeProduct numToString pd a u html = cleanAndNormalize (ensureFields pd a u) a"
proof -
  have "hasProductData (ensureFields pd a u)"
    using assms(1) by (simp add: hasProductData_def ensureFields_other)
  with assms(2) show ?thesis
    by (simp add: normalizeProduct_validated)
qed

text \<open>
  C3, the code at the failing input.  The parsed object \<^verbatim>\<open>{}\<close> has no title, price or
  brand, and the HTML holds both block-page phrases; yet \<^verbatim>\<open>undefined !== null\<close> makes
  \<^verbatim>\<open>hasProductData\<close> true, the check is skipped and the empty record is returned.  With
  the key present, \<^verbatim>\<open>{"price": null}\<close>, the same HTML gives the blocked-request error.
\<close>

theorem block_check_skipped_without_price_key:
  "blockPage ''Click the button below to continue shopping''
   \<and> caught (normalizeProduct (\<lambda>n. []) [] None None ''Click the button below to continue shopping'')
       = Inr [(''asin'', JNull), (''type'', JNull), (''title'', JNull), (''price'', JNull),
              (''brand'', JNull), (''description'', JNull), (''size'', JNull),
              (''quantity'', JNull), (''dimensions'', JNull), (''rollLength'', JNull),
              (''rollWidth'', JNull), (''printNames'', JArr []), (''rolls'', JArr []),
              (''thumbnail'', JNull), (''images'', JArr []), (''url'', JNull)]
   \<and> caught (normalizeProduct (\<lambda>n. []) [(''price'', JNull)] None None
         ''Click the button below to continue shopping'')
       = Inl (Error blocked_message)"
  by code_simp

section \<open>C4: the coercion of the rolls\<close>

text \<open>
  The fields of a coerced roll.  The returned \<^verbatim>\<open>maxArea\<close> is the returned \<^verbatim>\<open>onHand\<close> unless
  the given \<^verbatim>\<open>onHand\<close> is truthy and not a number.
\<close>

lemma member_coerced:
  "coerceRoll i roll = Inr r \<Longrightarrow>
     member r ''rollNumber'' =
       (if is_number (member roll ''rollNumber'') then member roll ''rollNumber''
        else JNum (of_nat i + 1))
   \<and> member r ''onHand'' =
       (if is_number (member roll ''onHand'') then member roll ''onHand'' else JNum 0)
   \<and> member r ''maxArea'' =
       (if is_number (member roll ''maxArea'') then member roll ''maxArea''
        else if truthy (member roll ''onHand'') then member roll ''onHand'' else JNum 0)
   \<and> member r ''image'' = js_or (member roll ''image'') JNull
   \<and> member r ''printName'' = js_or (member roll ''printName'') JNull
   \<and> member r ''hasReverseSide'' =
       (if is_boolean (member roll ''hasReverseSide'') then member roll ''hasReverseSide''
        else JBool False)
   \<and> member r ''pairedRollNumber'' =
       (if is_number (member roll ''pairedRollNumber'') then member roll ''pairedRollNumber''
        else JNull)"
proof -
  assume "coerceRoll i roll = Inr r"
  then have r: "r = JObj
        [(''rollNumber'', (if is_number (member roll ''rollNumber'') then member roll ''rollNumber''
                           else JNum (of_nat i + 1))),
         (''onHand'', (if is_number (member roll ''onHand'') then member roll ''onHand''
                       else JNum 0)),
         (''maxArea'', (if is_number (member roll ''maxArea'') then member roll ''maxArea''
                        else js_or (member roll ''onHand'') (JNum 0))),
         (''image'', js_or (member roll ''image'') JNull),
         (''printName'', js_or (member roll ''printName'') JNull),
         (''hasReverseSide'', (if is_boolean (member roll ''hasReverseSide'')
                               then member roll ''hasReverseSide'' else JBool False)),
         (''pairedRollNumber'', (if is_number (member roll ''pairedRollNumber'')
                                 then member roll ''pairedRollNumber'' else JNull))]"
    by (cases "roll = JNull \<or> roll = JUndefined") (simp_all add: coerceRoll_def)
  show ?thesis
    unfolding r by (simp add: member_def get_prop_def js_or_def)
qed

lemma maxArea_is_onHand_unless_truthy_non_number:
  assumes "coerceRoll i roll = Inr r" and "\<not> is_number (member roll ''maxArea'')"
    and "is_number (member roll ''onHand'') \<or> \<not> truthy (member roll ''onHand'')"
  shows "member r ''maxArea'' = member r ''onHand''"
proof -
  from member_coerced [OF assms(1)] have
    "member r ''onHand'' =
       (if is_number (member roll ''onHand'') then member roll ''onHand'' else JNum 0)"
    "member r ''maxArea'' =
       (if is_number (member roll ''maxArea'') then member roll ''maxArea''
        else if truthy (member roll ''onHand'') then member roll ''onHand'' else JNum 0)"
    by simp_all
  with assms(2,3) show ?thesis
    by (cases "member roll ''onHand''") simp_all
qed

text \<open>
  C4, the code at the failing input.  For the roll \<^verbatim>\<open>{"onHand": "22"}\<close> neither \<^verbatim>\<open>onHand\<close>
  nor \<^verbatim>\<open>maxArea\<close> is a number: the returned \<^verbatim>\<open>onHand\<close> is \<^verbatim>\<open>0\<close>, but the returned
  \<^verbatim>\<open>maxArea\<close> is the string \<^verbatim>\<open>"22"\<close>, since the fallback \<^verbatim>\<open>roll.onHand || 0\<close> reads the
  raw value without the \<^verbatim>\<open>typeof\<close> test of the line above it.
\<close>

theorem maxArea_takes_non_numeric_onHand:
  "normalizeProduct (\<lambda>n. [])
     [(''title'', JStr ''Gift wrap''), (''rolls'', JArr [JObj [(''onHand'', JStr ''22'')]])]
     None None ''<html>''
   = Inr (rec_of JNull (JStr ''Gift wrap'') JNull (JArr [])
       (JArr [JObj [(''rollNumber'', JNum 1), (''onHand'', JNum 0), (''maxArea'', JStr ''22''),
                    (''image'', JNull), (''printName'', JNull),
                    (''hasReverseSide'', JBool False), (''pairedRollNumber'', JNull)]])
       JNull)"
  by code_simp

section \<open>C5: normalizing a normalized record\<close>

lemma js_or_js_or: "js_or (js_or x y) y = js_or x y"
  by (simp add: js_or_def)

lemma defined_or_null_idem: "defined_or_null (defined_or_null v) = defined_or_null v"
  by (simp add: defined_or_null_def)

lemma array_null_or_empty_idem:
  "array_null_or_empty (array_null_or_empty v) = array_null_or_empty v"
  by (cases v) (simp_all add: array_null_or_empty_def)

lemma coerceRoll_shape:
  assumes "coerceRoll i roll = Inr r"
  shows "r = JObj
        [(''rollNumber'', (if is_number (member roll ''rollNumber'') then member roll ''rollNumber''
                           else JNum (of_nat i + 1))),
         (''onHand'', (if is_number (member roll ''onHand'') then member roll ''onHand''
                       else JNum 0)),
         (''maxArea'', (if is_number (member roll ''maxArea'') then member roll ''maxArea''
                        else js_or (member roll ''onHand'') (JNum 0))),
         (''image'', js_or (member roll ''image'') JNull),
         (''printName'', js_or (member roll ''printName'') JNull),
         (''hasReverseSide'', (if is_boolean (member roll ''hasReverseSide'')
                               then member roll ''hasReverseSide'' else JBool False)),
         (''pairedRollNumber'', (if is_number (member roll ''pairedRollNumber'')
                                 then member roll ''pairedRollNumber'' else JNull))]"
  using assms by (cases "roll = JNull \<or> roll = JUndefined") (simp_all add: coerceRoll_def)

lemma coerceRoll_again:
  assumes "coerceRoll i roll = Inr r" and "is_number (member r ''maxArea'')"
  shows "coerceRoll i r = Inr r"
proof -
  define n where "n = (if is_number (member roll ''rollNumber'') then member roll ''rollNumber''
                           else JNum (of_nat i + 1))"
  define h where "h = (if is_number (member roll ''onHand'') then member roll ''onHand''
                       else JNum 0)"
  define m where "m = (if is_number (member roll ''maxArea'') then member roll ''maxArea''
                        else js_or (member roll ''onHand'') (JNum 0))"
  define g where "g = js_or (member roll ''image'') JNull"
  define p where "p = js_or (member roll ''printName'') JNull"
  define s where "s = (if is_boolean (member roll ''hasReverseSide'')
                               then member roll ''hasReverseSide'' else JBool False)"
  define q where "q = (if is_number (member roll ''pairedRollNumber'')
                                 then member roll ''pairedRollNumber'' else JNull)"
  have r: "r = JObj [(''rollNumber'', n), (''onHand'', h), (''maxArea'', m), (''image'', g),
                    (''printName'', p), (''hasReverseSide'', s), (''pairedRollNumber'', q)]"
    using coerceRoll_shape [OF assms(1)] by (simp only: n_def h_def m_def g_def p_def s_def q_def)
  have mem: "member r ''rollNumber'' = n" "member r ''onHand'' = h" "member r ''maxArea'' = m"
    "member r ''image'' = g" "member r ''printName'' = p" "member r ''hasReverseSide'' = s"
    "member r ''pairedRollNumber'' = q"
    unfolding r by (simp_all add: member_def get_prop_def)
  have 1: "is_number n" by (simp add: n_def)
  have 2: "is_number h" by (simp add: h_def)
  have 3: "is_number m" using assms(2) mem by simp
  have 4: "js_or g JNull = g" by (simp add: g_def js_or_js_or)
  have 5: "js_or p JNull = p" by (simp add: p_def js_or_js_or)
  have 6: "is_boolean s" by (simp add: s_def)
  have 7: "\<not> is_number q \<longrightarrow> JNull = q" by (simp add: q_def)
  have "r \<noteq> JNull" "r \<noteq> JUndefined" by (simp_all add: r)
  then have "coerceRoll i r = Inr (JObj [(''rollNumber'', n), (''onHand'', h), (''maxArea'', m),
      (''image'', g), (''printName'', p), (''hasReverseSide'', s), (''pairedRollNumber'', q)])"
    using 7 by (simp add: coerceRoll_def mem 1 2 3 4 5 6)
  then show ?thesis by (simp only: r)
qed

lemma coerceRolls_again:
  "coerceRolls i xs = Inr rs \<Longrightarrow> \<forall>x \<in> set rs. is_number (member x ''maxArea'')
   \<Longrightarrow> coerceRolls i rs = Inr rs"
proof (induction xs arbitrary: i rs)
  case Nil
  then show ?case by simp
next
  case (Cons x xs)
  from Cons.prems(1) obtain r rs' where
    r: "coerceRoll i x = Inr r" and rs': "coerceRolls (Suc i) xs = Inr rs'" and rs: "rs = r # rs'"
    by (auto split: sum.splits)
  from Cons.prems(2) rs have "is_number (member r ''maxArea'')"
    and all: "\<forall>x \<in> set rs'. is_number (member x ''maxArea'')"
    by simp_all
  with r have "coerceRoll i r = Inr r" by (intro coerceRoll_again)
  moreover from Cons.IH [OF rs' all] have "coerceRolls (Suc i) rs' = Inr rs'" .
  ultimately show ?case by (simp add: rs)
qed

lemma images_idem:
  "(if isArray (if isArray v then v else JArr []) then (if isArray v then v else JArr [])
    else JArr []) = (if isArray v then v else JArr [])"
  by simp

lemma cleanedData_set_rolls:
  "cleanedData (set_prop (cleanedData d a) ''rolls'' v) a
     = set_prop (cleanedData d a) ''rolls'' (array_null_or_empty v)"
proof -
  let ?c = "set_prop (cleanedData d a) ''rolls'' v"
  have get: "get_prop ?c k = (if k = ''rolls'' then v else get_prop (cleanedData d a) k)" for k
    by (simp add: get_prop_set_prop)
  have lhs: "cleanedData ?c a =
     [(''asin'', js_or (get_prop d ''asin'') JNull),
      (''type'', js_or (get_prop d ''type'') JNull),
      (''title'', js_or (get_prop d ''title'') JNull),
      (''price'', defined_or_null (get_prop d ''price'')),
      (''brand'', js_or (get_prop d ''brand'') JNull),
      (''description'', js_or (get_prop d ''description'') JNull),
      (''size'', js_or (get_prop d ''size'') JNull),
      (''quantity'', defined_or_null (get_prop d ''quantity'')),
      (''dimensions'', js_or (get_prop d ''dimensions'') JNull),
      (''rollLength'', defined_or_null (get_prop d ''rollLength'')),
      (''rollWidth'', defined_or_null (get_prop d ''rollWidth'')),
      (''printNames'', array_null_or_empty (get_prop d ''printNames'')),
      (''rolls'', array_null_or_empty v),
      (''thumbnail'', js_or (get_prop d ''thumbnail'') JNull),
      (''images'', (if isArray (get_prop d ''images'') then get_prop d ''images'' else JArr [])),
      (''url'', js_or (get_prop d ''url'')
                  (if truthy (fallback_val a) then template_dp a else JNull))]"
    unfolding cleanedData_def [of ?c a] get
    by (simp add: cleanedData_or_fields cleanedData_defined_fields cleanedData_array_fields
        cleanedData_url js_or_js_or defined_or_null_idem array_null_or_empty_idem)
  have rhs: "set_prop (cleanedData d a) ''rolls'' (array_null_or_empty v) =
     [(''asin'', js_or (get_prop d ''asin'') JNull),
      (''type'', js_or (get_prop d ''type'') JNull),
      (''title'', js_or (get_prop d ''title'') JNull),
      (''price'', defined_or_null (get_prop d ''price'')),
      (''brand'', js_or (get_prop d ''brand'') JNull),
      (''description'', js_or (get_prop d ''description'') JNull),
      (''size'', js_or (get_prop d ''size'') JNull),
      (''quantity'', defined_or_null (get_prop d ''quantity'')),
      (''dimensions'', js_or (get_prop d ''dimensions'') JNull),
      (''rollLength'', defined_or_null (get_prop d ''rollLength'')),
      (''rollWidth'', defined_or_null (get_prop d ''rollWidth'')),
      (''printNames'', array_null_or_empty (get_prop d ''printNames'')),
      (''rolls'', array_null_or_empty v),
      (''thumbnail'', js_or (get_prop d ''thumbnail'') JNull),
      (''images'', (if isArray (get_prop d ''images'') then get_prop d ''images'' else JArr [])),
      (''url'', js_or (get_prop d ''url'')
                  (if truthy (fallback_val a) then template_dp a else JNull))]"
    by (simp add: cleanedData_def set_prop_def)
  show ?thesis by (simp only: lhs rhs)
qed

lemma set_prop_same_rolls:
  "set_prop (cleanedData d a) ''rolls'' (get_prop (cleanedData d a) ''rolls'') = cleanedData d a"
  by (simp add: cleanedData_def set_prop_def get_prop_def)

lemma set_prop_twice:
  "set_prop (set_prop (cleanedData d a) ''rolls'' v) ''rolls'' v'
     = set_prop (cleanedData d a) ''rolls'' v'"
  by (simp add: cleanedData_def set_prop_def)

text \<open>
  Apart from that defect the claim holds: a returned record whose rolls all have a numeric
  \<^verbatim>\<open>maxArea\<close> is returned unchanged when lines 304-337 run on it again.
\<close>

lemma renormalizing_fixed_when_maxArea_numeric:
  assumes "cleanAndNormalize d a = Inr r"
    and "\<And>rs. get_prop r ''rolls'' = JArr rs \<Longrightarrow> \<forall>x \<in> set rs. is_number (member x ''maxArea'')"
  shows "cleanAndNormalize r a = Inr r"
proof (cases "get_prop (cleanedData d a) ''rolls''")
  case (JArr xs)
  with assms(1) obtain rs where rs: "coerceRolls 0 xs = Inr rs"
    and r: "r = set_prop (cleanedData d a) ''rolls'' (JArr rs)"
    by (auto simp: cleanAndNormalize_def split: sum.splits)
  have "get_prop r ''rolls'' = JArr rs"
    by (simp add: r get_prop_set_prop)
  from assms(2) [OF this] rs have again: "coerceRolls 0 rs = Inr rs"
    by (intro coerceRolls_again)
  have c: "cleanedData r a = r"
    unfolding r cleanedData_set_rolls by (simp add: array_null_or_empty_def)
  have "get_prop (cleanedData r a) ''rolls'' = JArr rs"
    unfolding c by (simp add: r get_prop_set_prop)
  then have "cleanAndNormalize r a = Inr (set_prop (cleanedData r a) ''rolls'' (JArr rs))"
    by (simp add: cleanAndNormalize_def again)
  also have "set_prop (cleanedData r a) ''rolls'' (JArr rs) = r"
    unfolding c by (simp add: r set_prop_twice)
  finally show ?thesis .
next
  case JNull
  with assms(1) have r: "r = cleanedData d a"
    by (simp add: cleanAndNormalize_def)
  have "cleanedData r a = set_prop (cleanedData d a) ''rolls'' (array_null_or_empty JNull)"
    using cleanedData_set_rolls [of d a JNull] JNull set_prop_same_rolls [of d a]
    by (simp add: r)
  also have "\<dots> = r"
    using JNull set_prop_same_rolls [of d a] by (simp add: r array_null_or_empty_def)
  finally have c: "cleanedData r a = r" .
  have "get_prop r ''rolls'' = JNull"
    using JNull by (simp add: r)
  then show ?thesis
    by (simp add: cleanAndNormalize_def c)
qed (use array_null_or_empty_cases [of "get_prop d ''rolls''"]
      in \<open>simp_all add: cleanedData_array_fields\<close>)

text \<open>
  C5, the code at the failing input.  The record returned for that roll is not a fixed
  point: normalizing it again replaces the \<^verbatim>\<open>maxArea\<close> \<^verbatim>\<open>"22"\<close> by \<^verbatim>\<open>0\<close>.
\<close>

theorem renormalizing_changes_maxArea:
  "normalizeProduct (\<lambda>n. [])
     [(''title'', JStr ''Gift wrap''), (''rolls'', JArr [JObj [(''onHand'', JStr ''22'')]])]
     None None ''<html>''
   = Inr (rec_of JNull (JStr ''Gift wrap'') JNull (JArr [])
       (JArr [JObj [(''rollNumber'', JNum 1), (''onHand'', JNum 0), (''maxArea'', JStr ''22''),
                    (''image'', JNull), (''printName'', JNull),
                    (''hasReverseSide'', JBool False), (''pairedRollNumber'', JNull)]])
       JNull)
   \<and> normalizeProduct (\<lambda>n. [])
     (rec_of JNull (JStr ''Gift wrap'') JNull (JArr [])
       (JArr [JObj [(''rollNumber'', JNum 1), (''onHand'', JNum 0), (''maxArea'', JStr ''22''),
                    (''image'', JNull), (''printName'', JNull),
                    (''hasReverseSide'', JBool False), (''pairedRollNumber'', JNull)]])
       JNull)
     None None ''<html>''
   = Inr (rec_of JNull (JStr ''Gift wrap'') JNull (JArr [])
       (JArr [JObj [(''rollNumber'', JNum 1), (''onHand'', JNum 0), (''maxArea'', JNum 0),
                    (''image'', JNull), (''printName'', JNull),
                    (''hasReverseSide'', JBool False), (''pairedRollNumber'', JNull)]])
       JNull)"
  by code_simp

section \<open>C6: printNames and rolls\<close>

text \<open>
  C6.  The \<^verbatim>\<open>printNames\<close> and \<^verbatim>\<open>rolls\<close> fields of the object literal \<^verbatim>\<open>cleanedData\<close>
  follow the three-way rule on the parsed completion object: an array is kept as it is,
  an explicit \<^verbatim>\<open>null\<close> stays \<^verbatim>\<open>null\<close>, and anything else (a value of another type, or a
  missing key) becomes the empty array.  In the returned record \<^verbatim>\<open>printNames\<close> is that
  value; \<^verbatim>\<open>rolls\<close> is \<^verbatim>\<open>null\<close>, the empty array, or the given array with each element
  coerced by the later \<^verbatim>\<open>map\<close>, as long as the given one.
\<close>

theorem printNames_rolls_three_way:
  "(k = ''printNames'' \<or> k = ''rolls'' \<longrightarrow>
      get_prop (cleanedData (ensureFields pd a u) a) k =
        (if isArray (get_prop pd k) then get_prop pd k
         else if get_prop pd k = JNull then JNull else JArr []))
   \<and> (normalizeProduct numToString pd a u html = Inr r \<longrightarrow>
        get_prop r ''printNames'' =
          (if isArray (get_prop pd ''printNames'') then get_prop pd ''printNames''
           else if get_prop pd ''printNames'' = JNull then JNull else JArr [])
        \<and> (case get_prop pd ''rolls'' of
              JArr xs \<Rightarrow> (\<exists>ys. get_prop r ''rolls'' = JArr ys \<and> coerceRolls 0 xs = Inr ys
                          \<and> length ys = length xs)
            | JNull \<Rightarrow> get_prop r ''rolls'' = JNull
            | _ \<Rightarrow> get_prop r ''rolls'' = JArr []))"
proof (intro conjI impI)
  assume "k = ''printNames'' \<or> k = ''rolls''"
  then show "get_prop (cleanedData (ensureFields pd a u) a) k =
        (if isArray (get_prop pd k) then get_prop pd k
         else if get_prop pd k = JNull then JNull else JArr [])"
    by (auto simp: cleanedData_array_fields ensureFields_other array_null_or_empty_def)
next
  assume ok: "normalizeProduct numToString pd a u html = Inr r"
  then have cn: "cleanAndNormalize (ensureFields pd a u) a = Inr r"
    by (rule normalizeProduct_Inr)
  from cleanAndNormalize_other [OF cn, of "''printNames''"]
  show "get_prop r ''printNames'' =
          (if isArray (get_prop pd ''printNames'') then get_prop pd ''printNames''
           else if get_prop pd ''printNames'' = JNull then JNull else JArr [])"
    by (simp add: cleanedData_array_fields ensureFields_other array_null_or_empty_def)
next
  assume ok: "normalizeProduct numToString pd a u html = Inr r"
  then have cn: "cleanAndNormalize (ensureFields pd a u) a = Inr r"
    by (rule normalizeProduct_Inr)
  have rolls: "get_prop (cleanedData (ensureFields pd a u) a) ''rolls'' =
      array_null_or_empty (get_prop pd ''rolls'')"
    by (simp add: cleanedData_array_fields ensureFields_other)
  from cleanAndNormalize_rolls [OF cn]
  show "(case get_prop pd ''rolls'' of
              JArr xs \<Rightarrow> (\<exists>ys. get_prop r ''rolls'' = JArr ys \<and> coerceRolls 0 xs = Inr ys
                          \<and> length ys = length xs)
            | JNull \<Rightarrow> get_prop r ''rolls'' = JNull
            | _ \<Rightarrow> get_prop r ''rolls'' = JArr [])"
    unfolding rolls
    by (cases "get_prop pd ''rolls''")
       (auto simp: array_null_or_empty_def dest: coerceRolls_length)
qed


theorem printNames_rolls_three_way_witness:
  "normalizeProduct (\<lambda>n. [])
     [(''title'', JStr ''Gift wrap''), (''printNames'', JArr [JStr ''Dots'']), (''rolls'', JNull)]
     None None ''<html>''
   = Inr (rec_of JNull (JStr ''Gift wrap'') JNull (JArr [JStr ''Dots'']) JNull JNull)
   \<and> get_prop (rec_of JNull (JStr ''Gift wrap'') JNull (JArr [JStr ''Dots'']) JNull JNull)
         ''printNames'' = JArr [JStr ''Dots'']
   \<and> get_prop (rec_of JNull (JStr ''Gift wrap'') JNull (JArr [JStr ''Dots'']) JNull JNull)
         ''rolls'' = JNull"
proof -
  have run: "normalizeProduct (\<lambda>n. [])
     [(''title'', JStr ''Gift wrap''), (''printNames'', JArr [JStr ''Dots'']), (''rolls'', JNull)]
     None None ''<html>''
   = Inr (rec_of JNull (JStr ''Gift wrap'') JNull (JArr [JStr ''Dots'']) JNull JNull)"
    by code_simp
  from printNames_rolls_three_way [of "''printNames''"
      "[(''title'', JStr ''Gift wrap''), (''printNames'', JArr [JStr ''Dots'']), (''rolls'', JNull)]"
      None None "\<lambda>n. []" "''<html>''"
      "rec_of JNull (JStr ''Gift wrap'') JNull (JArr [JStr ''Dots'']) JNull JNull"]
    run
  show ?thesis by (simp add: get_prop_def)
qed

section \<open>C7: the validator\<close>

lemma rx_exactly:
  "rx (replicate n (Single c) @ [Eos]) cap s = None
     \<longleftrightarrow> \<not> (length s = n \<and> (\<forall>x \<in> set s. cls_ok c x))"
proof (induction n arbitrary: s)
  case 0
  then show ?case by simp
next
  case (Suc n)
  then show ?case by (cases s) auto
qed

lemma asin_pattern:
  "regex_test re_asin s \<longleftrightarrow> length s = 10 \<and> (\<forall>x \<in> set s. cls_ok UpperDigit x)"
  using rx_exactly [of 10 UpperDigit False s]
  by (simp add: regex_test_def re_asin_def exec_def)

lemma upper_digit_chars:
  "cls_ok UpperDigit x \<longleftrightarrow> x \<in> set ''ABCDEFGHIJKLMNOPQRSTUVWXYZ0123456789''"
proof
  assume "x \<in> set ''ABCDEFGHIJKLMNOPQRSTUVWXYZ0123456789''"
  then show "cls_ok UpperDigit x"
    by (auto simp: Let_def)
next
  assume ok: "cls_ok UpperDigit x"
  define n where "n = (of_char x :: nat)"
  have x: "x = char_of n" by (simp add: n_def)
  from ok have "n \<in> {65..<91} \<union> {48..<58}"
    unfolding n_def by (auto simp: Let_def)
  then have "n \<in> set ([65..<91] @ [48..<58])"
    by (simp only: set_append set_upt)
  also have "[65..<91] @ [48..<58] = map of_char ''ABCDEFGHIJKLMNOPQRSTUVWXYZ0123456789''"
    by code_simp
  finally have "char_of n \<in> char_of ` set (map (of_char :: char \<Rightarrow> nat) ''ABCDEFGHIJKLMNOPQRSTUVWXYZ0123456789'')"
    by (rule imageI)
  then have "char_of n \<in> set (map (char_of \<circ> (of_char :: char \<Rightarrow> nat)) ''ABCDEFGHIJKLMNOPQRSTUVWXYZ0123456789'')"
    by (simp only: set_map image_comp)
  then show "x \<in> set ''ABCDEFGHIJKLMNOPQRSTUVWXYZ0123456789''"
    unfolding x by (simp add: comp_def)
qed


lemma not_number_in_iff:
  "not_number_in v lo hi \<longleftrightarrow> (\<forall>n. v = JNum n \<longrightarrow> n < lo \<or> hi < n)"
  by (cases v) (auto simp: not_number_in_def)

text \<open>
  C7 (as amended).  For every record whose \<^verbatim>\<open>asin\<close> is falsy or can be converted to a string
  (it is not an object with an own key \<^verbatim>\<open>toString\<close>, nor an array that holds one), the
  validator returns, without raising and without changing the record, exactly these
  violations, in this order: one for \<^verbatim>\<open>asin\<close> when it is truthy and its string form is not
  exactly 10 characters, each an upper-case letter A-Z or a digit; one for \<^verbatim>\<open>type\<close> when
  it is truthy and not one of the 5 enumerated strings; one each for \<^verbatim>\<open>price\<close> and
  \<^verbatim>\<open>quantity\<close> when not \<^verbatim>\<open>null\<close> and not a number in [0, 100000]; one each for
  \<^verbatim>\<open>rollWidth\<close> and \<^verbatim>\<open>rollLength\<close> when not \<^verbatim>\<open>null\<close> and not a number in [0, 100].  A falsy
  \<^verbatim>\<open>asin\<close> or \<^verbatim>\<open>type\<close> (such as the empty string) is not checked; a missing numeric key is
  \<^verbatim>\<open>undefined\<close>, not \<^verbatim>\<open>null\<close>, and is reported.
\<close>

theorem validateProductData_checks:
  assumes "\<not> (truthy (get_prop data ''asin'') \<and> toStr_raises (get_prop data ''asin''))"
  shows "validateProductData numToString data = Inr (
     (if truthy (get_prop data ''asin'')
         \<and> (\<forall>s. toStr numToString (get_prop data ''asin'') = Inr s \<longrightarrow>
                \<not> (length s = 10 \<and> set s \<subseteq> set ''ABCDEFGHIJKLMNOPQRSTUVWXYZ0123456789''))
      then [''ASIN must be 10 alphanumeric characters''] else [])
   @ (if truthy (get_prop data ''type'')
         \<and> (\<forall>s \<in> {''wrapping_paper'', ''ribbon'', ''box'', ''tag'', ''bow''}.
               get_prop data ''type'' \<noteq> JStr s)
      then [''Type must be one of: wrapping_paper, ribbon, box, tag, bow''] else [])
   @ (if get_prop data ''price'' \<noteq> JNull
         \<and> (\<forall>n. get_prop data ''price'' = JNum n \<longrightarrow> n < 0 \<or> 100000 < n)
      then [''Price must be a number between 0 and 100000''] else [])
   @ (if get_prop data ''quantity'' \<noteq> JNull
         \<and> (\<forall>n. get_prop data ''quantity'' = JNum n \<longrightarrow> n < 0 \<or> 100000 < n)
      then [''Quantity must be a number between 0 and 100000''] else [])
   @ (if get_prop data ''rollWidth'' \<noteq> JNull
         \<and> (\<forall>n. get_prop data ''rollWidth'' = JNum n \<longrightarrow> n < 0 \<or> 100 < n)
      then [''Roll width must be a number between 0 and 100''] else [])
   @ (if get_prop data ''rollLength'' \<noteq> JNull
         \<and> (\<forall>n. get_prop data ''rollLength'' = JNum n \<longrightarrow> n < 0 \<or> 100 < n)
      then [''Roll length must be a number between 0 and 100''] else []))"
proof -
  have asin: "regex_test re_asin s \<longleftrightarrow>
      length s = 10 \<and> set s \<subseteq> set ''ABCDEFGHIJKLMNOPQRSTUVWXYZ0123456789''" for s
    unfolding asin_pattern upper_digit_chars by blast
  have type: "v \<notin> set [JStr ''wrapping_paper'', JStr ''ribbon'', JStr ''box'', JStr ''tag'',
                    JStr ''bow'']
      \<longleftrightarrow> (\<forall>s \<in> {''wrapping_paper'', ''ribbon'', ''box'', ''tag'', ''bow''}. v \<noteq> JStr s)" for v
    by auto
  show ?thesis
  proof (cases "truthy (get_prop data ''asin'')")
    case False
    then show ?thesis
      unfolding validateProductData_def type not_number_in_iff by simp
  next
    case True
    with assms toStr_Inr obtain s where s: "toStr numToString (get_prop data ''asin'') = Inr s"
      by blast
    show ?thesis
      unfolding validateProductData_def regex_test_value_def type not_number_in_iff s asin
      using True by simp
  qed
qed

theorem validateProductData_checks_witness:
  "validateProductData (\<lambda>n. [])
      (rec_of (JStr ''B08XYZ1234'') (JStr ''Gift wrap'') (JNum (- 5)) JNull JNull JNull)
     = Inr [''Price must be a number between 0 and 100000'']
   \<and> validateProductData (\<lambda>n. [])
      (rec_of (JStr ''B08XYZ1234'') (JStr ''Gift wrap'') JNull JNull JNull JNull)
     = Inr []"
proof -
  let ?r5 = "rec_of (JStr ''B08XYZ1234'') (JStr ''Gift wrap'') (JNum (- 5)) JNull JNull JNull"
  let ?r0 = "rec_of (JStr ''B08XYZ1234'') (JStr ''Gift wrap'') JNull JNull JNull JNull"
  have 5: "\<not> (truthy (get_prop ?r5 ''asin'') \<and> toStr_raises (get_prop ?r5 ''asin''))"
    by (simp add: rec_of_def get_prop_def)
  have 0: "\<not> (truthy (get_prop ?r0 ''asin'') \<and> toStr_raises (get_prop ?r0 ''asin''))"
    by (simp add: rec_of_def get_prop_def)
  from validateProductData_checks [OF 5, of "\<lambda>n. []"]
  have a: "validateProductData (\<lambda>n. []) ?r5
      = Inr [''Price must be a number between 0 and 100000'']"
    by (simp add: rec_of_def get_prop_def)
  from validateProductData_checks [OF 0, of "\<lambda>n. []"]
  have b: "validateProductData (\<lambda>n. []) ?r0 = Inr []"
    by (simp add: rec_of_def get_prop_def)
  from a b show ?thesis by (rule conjI)
qed

text \<open>
  C7 as stated fails: the empty string is a non-null \<^verbatim>\<open>asin\<close> that is not 10 alphanumeric
  characters, and no violation is returned for it; \<^verbatim>\<open>b08xyz1234\<close> is 10 alphanumeric
  characters, and a violation is returned for it.
\<close>

theorem empty_and_lowercase_asin:
  "validateProductData (\<lambda>n. []) (rec_of (JStr []) JNull JNull JNull JNull JNull) = Inr []
   \<and> validateProductData (\<lambda>n. []) (rec_of (JStr ''b08xyz1234'') JNull JNull JNull JNull JNull)
     = Inr [''ASIN must be 10 alphanumeric characters'']"
  by code_simp

text \<open>
  The records left out: for an \<^verbatim>\<open>asin\<close> that is an object with an own key \<^verbatim>\<open>toString\<close>,
  alone or inside an array, the validator throws, and so does the body of the \<^verbatim>\<open>try\<close>.
\<close>

lemma validator_throws_on_own_toString:
  "validateProductData (\<lambda>n. []) [(''asin'', JObj [(''toString'', JNum 1)])] = Inl TypeError
   \<and> validateProductData (\<lambda>n. []) [(''asin'', JArr [JNull, JObj [(''toString'', JNull)]])]
       = Inl TypeError
   \<and> validateProductData (\<lambda>n. []) [(''asin'', JObj [(''valueOf'', JNum 1)])]
       = Inr [''ASIN must be 10 alphanumeric characters'',
              ''Price must be a number between 0 and 100000'',
              ''Quantity must be a number between 0 and 100000'',
              ''Roll width must be a number between 0 and 100'',
              ''Roll length must be a number between 0 and 100'']
   \<and> caught (normalizeProduct (\<lambda>n. []) [(''asin'', JObj [(''toString'', JNum 1)])] None None
         ''<html>'') = Inl TypeError"
  by code_simp

section \<open>C8: the JSON text of a completion\<close>

text \<open>The characters a pattern can take.\<close>

fun item_avoids :: "char \<Rightarrow> item \<Rightarrow> bool" where
  "item_avoids z (Single c) = (\<not> cls_ok c z)"
| "item_avoids z (Star c) = (\<not> cls_ok c z)"
| "item_avoids z (Lazy c) = (\<not> cls_ok c z)"
| "item_avoids z i = True"

lemma rx_avoids:
  "rx r cap s = Some (w, g, rest) \<Longrightarrow> list_all (item_avoids z) r \<Longrightarrow> z \<notin> set w"
proof (induction r cap s arbitrary: w g rest rule: rx.induct)
  case (1 cap s)
  then show ?case by simp
next
  case (2 r cap s)
  then show ?case by simp
next
  case (3 r cap s)
  then show ?case by simp
next
  case (4 r cap s)
  then show ?case by (cases "s = []") simp_all
next
  case (5 c r cap)
  then show ?case by simp
next
  case (6 c r cap x s)
  then show ?case by (cases "cls_ok c x") (auto simp: took_def)
next
  case (7 c r cap)
  then show ?case by simp
next
  case (8 c r cap x s)
  then show ?case
    by (cases "cls_ok c x"; cases "rx (Star c # r) cap s") (auto simp: took_def)
next
  case (9 c r cap)
  then show ?case by simp
next
  case (10 c r cap x s)
  then show ?case
    by (cases "rx r cap (x # s)"; cases "cls_ok c x") (auto simp: took_def)
qed

lemma rx_Eos_rest:
  "rx r cap s = Some (w, g, rest) \<Longrightarrow> Eos \<in> set r \<Longrightarrow> rest = []"
proof (induction r cap s arbitrary: w g rest rule: rx.induct)
  case (1 cap s)
  then show ?case by simp
next
  case (2 r cap s)
  then show ?case by simp
next
  case (3 r cap s)
  then show ?case by simp
next
  case (4 r cap s)
  then show ?case by (cases "s = []") (auto dest: rx_splits_input)
next
  case (5 c r cap)
  then show ?case by simp
next
  case (6 c r cap x s)
  then show ?case by (cases "cls_ok c x") (auto simp: took_def)
next
  case (7 c r cap)
  then show ?case by simp
next
  case (8 c r cap x s)
  then show ?case
    by (cases "cls_ok c x"; cases "rx (Star c # r) cap s") (auto simp: took_def)
next
  case (9 c r cap)
  then show ?case by simp
next
  case (10 c r cap x s)
  then show ?case
    by (cases "rx r cap (x # s)"; cases "cls_ok c x") (auto simp: took_def)
qed

lemma scan_avoids:
  "scan r s = Some (pre, w, g, rest) \<Longrightarrow> list_all (item_avoids z) r \<Longrightarrow> z \<notin> set w"
proof (induction s arbitrary: pre)
  case Nil
  then show ?case by (auto dest: rx_avoids)
next
  case (Cons x s)
  then show ?case by (cases "rx r False (x # s)") (auto dest: rx_avoids)
qed

lemma scan_Eos_rest:
  "scan r s = Some (pre, w, g, rest) \<Longrightarrow> Eos \<in> set r \<Longrightarrow> rest = []"
proof (induction s arbitrary: pre)
  case Nil
  then show ?case by (auto dest: rx_Eos_rest)
next
  case (Cons x s)
  then show ?case by (cases "rx r False (x # s)") (auto dest: rx_Eos_rest)
qed

text \<open>Cutting an anchored match leaves a suffix; cutting a match up to the end, a prefix.\<close>

lemma replace_first_anchored:
  assumes "fst re" and "\<And>z. z \<in> Z \<Longrightarrow> list_all (item_avoids z) (snd re)"
  shows "\<exists>p. s = p @ replace_first re s \<and> set p \<inter> Z = {}"
proof (cases "rx (snd re) False s")
  case None
  with assms(1) show ?thesis by (simp add: replace_first_def exec_def)
next
  case (Some m)
  obtain w g rest where m: "m = (w, g, rest)" by (cases m)
  from Some m rx_splits_input have "s = w @ rest" by blast
  moreover from Some m assms(2) rx_avoids have "set w \<inter> Z = {}" by blast
  moreover from Some m assms(1) have "replace_first re s = rest"
    by (simp add: replace_first_def exec_def)
  ultimately show ?thesis by auto
qed

lemma replace_first_to_end:
  assumes "\<not> fst re" and "Eos \<in> set (snd re)"
    and "\<And>z. z \<in> Z \<Longrightarrow> list_all (item_avoids z) (snd re)"
  shows "\<exists>q. s = replace_first re s @ q \<and> set q \<inter> Z = {}"
proof (cases "scan (snd re) s")
  case None
  with assms(1) show ?thesis by (simp add: replace_first_def exec_def)
next
  case (Some m)
  obtain pre w g rest where m: "m = (pre, w, g, rest)" by (cases m)
  from Some m assms(2) scan_Eos_rest have rest: "rest = []" by blast
  from Some m scan_splits_input have "s = pre @ w @ rest" by blast
  moreover from Some m assms(3) scan_avoids have "set w \<inter> Z = {}" by blast
  moreover from Some m assms(1) have "replace_first re s = pre @ rest"
    by (simp add: replace_first_def exec_def)
  ultimately show ?thesis using rest by auto
qed

lemma trim_splits_input:
  "\<exists>p q. s = p @ trim s @ q \<and> (\<forall>x \<in> set p. is_space x) \<and> (\<forall>x \<in> set q. is_space x)"
proof -
  let ?t = "dropWhile is_space s"
  have 1: "s = takeWhile is_space s @ ?t" by simp
  have "rev (rev ?t) = rev (takeWhile is_space (rev ?t) @ dropWhile is_space (rev ?t))"
    by (simp only: takeWhile_dropWhile_id)
  then have "?t = rev (dropWhile is_space (rev ?t)) @ rev (takeWhile is_space (rev ?t))"
    by (simp only: rev_rev_ident rev_append)
  then have 2: "?t = trim s @ rev (takeWhile is_space (rev ?t))"
    by (simp only: trim_def)
  have "s = takeWhile is_space s @ trim s @ rev (takeWhile is_space (rev ?t))"
    using 1 2 by metis
  moreover have "\<forall>x \<in> set (takeWhile is_space s). is_space x"
    by (auto dest: set_takeWhileD)
  moreover have "\<forall>x \<in> set (rev (takeWhile is_space (rev ?t))). is_space x"
    by (auto dest: set_takeWhileD)
  ultimately show ?thesis by blast
qed

lemma fence_avoids:
  "z \<in> {CHR ''{'', CHR ''}''} \<Longrightarrow> list_all (item_avoids z) (snd re_fence_json)"
  "z \<in> {CHR ''{'', CHR ''}''} \<Longrightarrow> list_all (item_avoids z) (snd re_fence_open)"
  "z \<in> {CHR ''{'', CHR ''}''} \<Longrightarrow> list_all (item_avoids z) (snd re_fence_close)"
  by (auto simp: re_fence_json_def re_fence_open_def re_fence_close_def litI_def
      fold_ascii_def is_space_def)

text \<open>Trimming and stripping the fences cut no brace.\<close>

definition stripped :: "string \<Rightarrow> string" where
  "stripped t = replace_first re_fence_close
                  (replace_first re_fence_open (replace_first re_fence_json (trim t)))"

lemma stripped_splits_input:
  "\<exists>p q. t = p @ stripped t @ q \<and> set p \<inter> {CHR ''{'', CHR ''}''} = {}
        \<and> set q \<inter> {CHR ''{'', CHR ''}''} = {}"
proof -
  let ?Z = "{CHR ''{'', CHR ''}''}"
  let ?s0 = "trim t"
  let ?s1 = "replace_first re_fence_json ?s0"
  let ?s2 = "replace_first re_fence_open ?s1"
  let ?s3 = "replace_first re_fence_close ?s2"
  from trim_splits_input [of t] obtain p0 q0 where
    0: "t = p0 @ ?s0 @ q0" "\<forall>x \<in> set p0. is_space x" "\<forall>x \<in> set q0. is_space x"
    by blast
  have "\<not> is_space z" if "z \<in> ?Z" for z
    using that by (auto simp: is_space_def)
  with 0 have z0: "set p0 \<inter> ?Z = {}" "set q0 \<inter> ?Z = {}" by blast+
  from replace_first_anchored [of re_fence_json ?Z ?s0] fence_avoids(1)
  obtain p1 where 1: "?s0 = p1 @ ?s1" "set p1 \<inter> ?Z = {}"
    unfolding re_fence_json_def by auto
  from replace_first_anchored [of re_fence_open ?Z ?s1] fence_avoids(2)
  obtain p2 where 2: "?s1 = p2 @ ?s2" "set p2 \<inter> ?Z = {}"
    unfolding re_fence_open_def by auto
  from replace_first_to_end [of re_fence_close ?Z ?s2] fence_avoids(3)
  obtain q3 where 3: "?s2 = ?s3 @ q3" "set q3 \<inter> ?Z = {}"
    unfolding re_fence_close_def by auto
  have "t = (p0 @ p1 @ p2) @ ?s3 @ (q3 @ q0)"
    using 0(1) 1(1) 2(1) 3(1) by (metis append.assoc)
  moreover have "set (p0 @ p1 @ p2) \<inter> ?Z = {}" using z0 1 2 by auto
  moreover have "set (q3 @ q0) \<inter> ?Z = {}" using z0 3 by auto
  ultimately show ?thesis unfolding stripped_def by blast
qed

text \<open>The pattern of the JSON object: from a brace at the front to the last closing brace.\<close>

lemma rx_to_last_brace_none:
  "CHR ''}'' \<notin> set s \<Longrightarrow> rx [Star AnyCh, Single (Ch CHR ''}'')] cap s = None"
  by (induction s) auto

lemma rx_to_last_brace:
  "CHR ''}'' \<notin> set c \<Longrightarrow>
   rx [Star AnyCh, Single (Ch CHR ''}'')] False (b @ CHR ''}'' # c) = Some (b @ [CHR ''}''], [], c)"
  by (induction b) (simp_all add: rx_to_last_brace_none took_def)

lemma scan_json_object:
  "CHR ''{'' \<notin> set a \<Longrightarrow> CHR ''}'' \<notin> set c \<Longrightarrow>
   scan (snd re_json_object) (a @ CHR ''{'' # b @ CHR ''}'' # c)
     = Some (a, CHR ''{'' # b @ [CHR ''}''], [], c)"
  by (induction a) (auto simp: re_json_object_def rx_to_last_brace took_def)

lemma scan_json_object_none:
  "(\<nexists>a b c. s = a @ CHR ''{'' # b @ CHR ''}'' # c) \<Longrightarrow> scan (snd re_json_object) s = None"
proof (induction s)
  case Nil
  then show ?case by (simp add: re_json_object_def)
next
  case (Cons x s)
  have "\<nexists>a b c. s = a @ CHR ''{'' # b @ CHR ''}'' # c"
  proof
    assume "\<exists>a b c. s = a @ CHR ''{'' # b @ CHR ''}'' # c"
    then obtain a b c where "s = a @ CHR ''{'' # b @ CHR ''}'' # c" by blast
    then have "x # s = (x # a) @ CHR ''{'' # b @ CHR ''}'' # c" by simp
    with Cons.prems show False by blast
  qed
  then have rest: "scan (snd re_json_object) s = None" by (rule Cons.IH)
  have here: "rx (snd re_json_object) False (x # s) = None"
  proof (cases "x = CHR ''{''")
    case False
    then show ?thesis by (simp add: re_json_object_def)
  next
    case True
    have "CHR ''}'' \<notin> set s"
    proof
      assume "CHR ''}'' \<in> set s"
      then obtain b c where "s = b @ CHR ''}'' # c" by (auto dest: split_list)
      with True have "x # s = [] @ CHR ''{'' # b @ CHR ''}'' # c" by simp
      with Cons.prems show False by blast
    qed
    with True show ?thesis by (simp add: re_json_object_def rx_to_last_brace_none)
  qed
  from here rest show ?case by simp
qed

lemma caught_no_json:
  "catchHandler (Error no_json_message) = Error (''Ollama API error: '' @ no_json_message)"
  by code_simp

lemma first_to_last_brace_inside:
  assumes t: "p @ s @ q = a @ CHR ''{'' # b @ CHR ''}'' # c"
    and a: "CHR ''{'' \<notin> set a" and c: "CHR ''}'' \<notin> set c"
    and p: "CHR ''{'' \<notin> set p" and q: "CHR ''}'' \<notin> set q"
  shows "\<exists>a' c'. s = a' @ CHR ''{'' # b @ CHR ''}'' # c'
            \<and> CHR ''{'' \<notin> set a' \<and> CHR ''}'' \<notin> set c'"
proof -
  let ?P = "\<lambda>x. x \<noteq> CHR ''{''"
  let ?Q = "\<lambda>x. x \<noteq> CHR ''}''"
  have "dropWhile ?P (p @ s @ q) = dropWhile ?P (s @ q)"
    using p by (intro dropWhile_append2) auto
  moreover have "dropWhile ?P (a @ CHR ''{'' # b @ CHR ''}'' # c) = CHR ''{'' # b @ CHR ''}'' # c"
    using a by (subst dropWhile_append2) auto
  ultimately have d: "dropWhile ?P (s @ q) = CHR ''{'' # b @ CHR ''}'' # c"
    using t by simp
  define a' where "a' = takeWhile ?P (s @ q)"
  have a': "CHR ''{'' \<notin> set a'"
    unfolding a'_def by (auto dest: set_takeWhileD)
  have sq: "s @ q = a' @ CHR ''{'' # b @ CHR ''}'' # c"
    using d takeWhile_dropWhile_id [of ?P "s @ q"] unfolding a'_def by simp
  then have "rev q @ rev s = rev c @ CHR ''}'' # rev b @ CHR ''{'' # rev a'"
    by (metis rev_append rev.simps(2) append.assoc append_Cons append_Nil)
  moreover have "dropWhile ?Q (rev q @ rev s) = dropWhile ?Q (rev s)"
    using q by (intro dropWhile_append2) auto
  moreover have "dropWhile ?Q (rev c @ CHR ''}'' # rev b @ CHR ''{'' # rev a')
      = CHR ''}'' # rev b @ CHR ''{'' # rev a'"
    using c by (subst dropWhile_append2) auto
  ultimately have e: "dropWhile ?Q (rev s) = CHR ''}'' # rev b @ CHR ''{'' # rev a'"
    by simp
  define c' where "c' = rev (takeWhile ?Q (rev s))"
  have c': "CHR ''}'' \<notin> set c'"
    unfolding c'_def by (auto dest: set_takeWhileD)
  have "rev s = rev c' @ CHR ''}'' # rev b @ CHR ''{'' # rev a'"
    using e takeWhile_dropWhile_id [of ?Q "rev s"] unfolding c'_def by simp
  then have "rev (rev s) = rev (rev c' @ CHR ''}'' # rev b @ CHR ''{'' # rev a')"
    by simp
  then have "s = a' @ CHR ''{'' # b @ CHR ''}'' # c'"
    by simp
  with a' c' show ?thesis by blast
qed

lemma findJsonText_scan:
  "findJsonText t =
      (case scan (snd re_json_object) (stripped t) of
         None \<Rightarrow> Inl (Error no_json_message)
       | Some (pre, jsonMatch, g, rest) \<Rightarrow> Inr jsonMatch)"
  by (simp add: findJsonText_def stripped_def Let_def exec_def re_json_object_def)

lemma findJsonText_span:
  assumes "t = a @ CHR ''{'' # b @ CHR ''}'' # c" "CHR ''{'' \<notin> set a" "CHR ''}'' \<notin> set c"
  shows "findJsonText t = Inr (CHR ''{'' # b @ [CHR ''}''])"
proof -
  from stripped_splits_input [of t] obtain p q where
    pq: "t = p @ stripped t @ q" "CHR ''{'' \<notin> set p" "CHR ''}'' \<notin> set q"
    by auto
  from pq(1) assms(1) have "p @ stripped t @ q = a @ CHR ''{'' # b @ CHR ''}'' # c"
    by simp
  from first_to_last_brace_inside [OF this assms(2,3) pq(2,3)] obtain a' c' where
    "stripped t = a' @ CHR ''{'' # b @ CHR ''}'' # c'"
    "CHR ''{'' \<notin> set a'" "CHR ''}'' \<notin> set c'"
    by blast
  then show ?thesis
    by (simp add: findJsonText_scan scan_json_object)
qed

lemma findJsonText_none:
  assumes "\<nexists>a b c. t = a @ CHR ''{'' # b @ CHR ''}'' # c"
  shows "findJsonText t = Inl (Error no_json_message)"
proof -
  from stripped_splits_input [of t] obtain p q where pq: "t = p @ stripped t @ q"
    by auto
  have "\<nexists>a b c. stripped t = a @ CHR ''{'' # b @ CHR ''}'' # c"
  proof
    assume "\<exists>a b c. stripped t = a @ CHR ''{'' # b @ CHR ''}'' # c"
    then obtain a b c where "stripped t = a @ CHR ''{'' # b @ CHR ''}'' # c" by blast
    with pq have "t = (p @ a) @ CHR ''{'' # b @ CHR ''}'' # (c @ q)" by simp
    with assms show False by blast
  qed
  then show ?thesis
    by (simp add: findJsonText_scan scan_json_object_none)
qed

lemma span_first_last:
  assumes "t = a @ CHR ''{'' # b @ CHR ''}'' # c"
  shows "\<exists>a' b' c'. t = a' @ CHR ''{'' # b' @ CHR ''}'' # c'
           \<and> CHR ''{'' \<notin> set a' \<and> CHR ''}'' \<notin> set c'"
proof -
  from assms have "CHR ''{'' \<in> set t" by simp
  then obtain a' r where 1: "t = a' @ CHR ''{'' # r" "CHR ''{'' \<notin> set a'"
    by (auto dest: split_list_first)
  have "CHR ''}'' \<in> set r"
  proof -
    from 1(1) assms have "a' @ CHR ''{'' # r = a @ CHR ''{'' # b @ CHR ''}'' # c" by simp
    then obtain us where
      "(a' = a @ us \<and> us @ CHR ''{'' # r = CHR ''{'' # b @ CHR ''}'' # c)
       \<or> (a' @ us = a \<and> CHR ''{'' # r = us @ CHR ''{'' # b @ CHR ''}'' # c)"
      by (auto simp: append_eq_append_conv2)
    then show ?thesis
    proof
      assume h: "a' = a @ us \<and> us @ CHR ''{'' # r = CHR ''{'' # b @ CHR ''}'' # c"
      show ?thesis
      proof (cases us)
        case Nil
        with h show ?thesis by auto
      next
        case (Cons x xs)
        with h have "x = CHR ''{''" by simp
        with h Cons 1(2) show ?thesis by simp
      qed
    next
      assume h: "a' @ us = a \<and> CHR ''{'' # r = us @ CHR ''{'' # b @ CHR ''}'' # c"
      show ?thesis
      proof (cases us)
        case Nil
        with h show ?thesis by auto
      next
        case (Cons x xs)
        with h have "r = xs @ CHR ''{'' # b @ CHR ''}'' # c" by simp
        then show ?thesis by simp
      qed
    qed
  qed
  then obtain b' c' where 2: "r = b' @ CHR ''}'' # c'" "CHR ''}'' \<notin> set c'"
    by (auto dest: split_list_last)
  from 1 2 show ?thesis by blast
qed

text \<open>
  C8.  Whatever the completion text, trimming it and stripping the code fences cut no
  brace, so the JSON text handed to \<^verbatim>\<open>JSON.parse\<close> is the substring of the completion text
  from its first \<^verbatim>\<open>{\<close> through its last \<^verbatim>\<open>}\<close>.  When the text has no \<^verbatim>\<open>{\<close> followed
  later by a \<^verbatim>\<open>}\<close> (in particular when it has no brace at all), the pipeline fails with
  the no-JSON-found error, which the \<^verbatim>\<open>catch\<close> rethrows with the prefix
  \<^verbatim>\<open>Ollama API error: \<close>.
\<close>

theorem json_span_first_to_last_brace:
  "(t = a @ CHR ''{'' # b @ CHR ''}'' # c \<and> CHR ''{'' \<notin> set a \<and> CHR ''}'' \<notin> set c \<longrightarrow>
      findJsonText t = Inr (CHR ''{'' # b @ [CHR ''}''])
      \<and> resolveResponse JSON_parse numToString t productAsin productUrl productHtml =
          caught (case JSON_parse (CHR ''{'' # b @ [CHR ''}'']) of
                    Inl parseError \<Rightarrow> Inl (Error (''Failed to parse JSON response: '' @ parseError))
                  | Inr productData \<Rightarrow>
                      normalizeProduct numToString productData productAsin productUrl productHtml))
   \<and> ((\<nexists>a b c. t = a @ CHR ''{'' # b @ CHR ''}'' # c) \<longrightarrow>
      findJsonText t = Inl (Error no_json_message)
      \<and> resolveResponse JSON_parse numToString t productAsin productUrl productHtml =
          Inl (Error (''Ollama API error: '' @ no_json_message)))"
proof (intro conjI impI)
  assume span: "t = a @ CHR ''{'' # b @ CHR ''}'' # c \<and> CHR ''{'' \<notin> set a \<and> CHR ''}'' \<notin> set c"
  then show found: "findJsonText t = Inr (CHR ''{'' # b @ [CHR ''}''])"
    by (intro findJsonText_span) auto
  then show "resolveResponse JSON_parse numToString t productAsin productUrl productHtml =
          caught (case JSON_parse (CHR ''{'' # b @ [CHR ''}'']) of
                    Inl parseError \<Rightarrow> Inl (Error (''Failed to parse JSON response: '' @ parseError))
                  | Inr productData \<Rightarrow>
                      normalizeProduct numToString productData productAsin productUrl productHtml)"
    by (simp add: resolveResponse_def)
next
  assume none: "\<nexists>a b c. t = a @ CHR ''{'' # b @ CHR ''}'' # c"
  then show nf: "findJsonText t = Inl (Error no_json_message)"
    by (rule findJsonText_none)
  then show "resolveResponse JSON_parse numToString t productAsin productUrl productHtml =
          Inl (Error (''Ollama API error: '' @ no_json_message))"
    by (simp add: resolveResponse_def caught_def caught_no_json)
qed


lemma no_brace_no_span:
  assumes "CHR ''{'' \<notin> set t"
  shows "\<nexists>a b c. t = a @ CHR ''{'' # b @ CHR ''}'' # c"
proof
  assume "\<exists>a b c. t = a @ CHR ''{'' # b @ CHR ''}'' # c"
  then obtain a b c where "t = a @ CHR ''{'' # b @ CHR ''}'' # c"
    by blast
  then have "CHR ''{'' \<in> set t"
    by simp
  with assms show False by simp
qed

theorem json_span_first_to_last_brace_witness:
  "findJsonText ''```json {\"title\": {\"en\": \"Gift wrap\"}} ```''
     = Inr ''{\"title\": {\"en\": \"Gift wrap\"}}''
   \<and> resolveResponse (\<lambda>s. Inl ''Unexpected end of JSON input'') (\<lambda>n. []) ''I cannot help with that.''
       None None ''<html>''
     = Inl (Error ''Ollama API error: No JSON object found in Ollama response'')"
proof -
  have span: "''```json {\"title\": {\"en\": \"Gift wrap\"}} ```''
        = ''```json '' @ CHR ''{'' # ''\"title\": {\"en\": \"Gift wrap\"}'' @ CHR ''}'' # '' ```''
      \<and> CHR ''{'' \<notin> set ''```json '' \<and> CHR ''}'' \<notin> set '' ```''"
    by code_simp
  have "CHR ''{'' \<notin> set ''I cannot help with that.''"
    by code_simp
  then have none: "\<nexists>a b c. ''I cannot help with that.'' = a @ CHR ''{'' # b @ CHR ''}'' # c"
    by (rule no_brace_no_span)
  have 1: "findJsonText ''```json {\"title\": {\"en\": \"Gift wrap\"}} ```''
     = Inr (CHR ''{'' # ''\"title\": {\"en\": \"Gift wrap\"}'' @ [CHR ''}''])"
    using json_span_first_to_last_brace [THEN conjunct1, THEN mp, OF span, THEN conjunct1] .
  have 2: "resolveResponse (\<lambda>s. Inl ''Unexpected end of JSON input'') (\<lambda>n. [])
       ''I cannot help with that.'' None None ''<html>''
     = Inl (Error (''Ollama API error: '' @ no_json_message))"
    using json_span_first_to_last_brace [THEN conjunct2, THEN mp, OF none, THEN conjunct2] .
  have 3: "CHR ''{'' # ''\"title\": {\"en\": \"Gift wrap\"}'' @ [CHR ''}'']
      = ''{\"title\": {\"en\": \"Gift wrap\"}}''"
    by code_simp
  have 4: "''Ollama API error: '' @ no_json_message
      = ''Ollama API error: No JSON object found in Ollama response''"
    by code_simp
  from 1 2 show ?thesis unfolding 3 4 by (rule conjI)
qed

section \<open>C9: back-filling asin and url\<close>

text \<open>
  C9.  When the parsed object has no (truthy) \<^verbatim>\<open>asin\<close> and the caller supplied an ASIN, the
  returned record's \<^verbatim>\<open>asin\<close> is the caller's.  When the object has no \<^verbatim>\<open>url\<close> either, the
  record's \<^verbatim>\<open>url\<close> is the caller's URL if one was supplied, and otherwise the canonical
  \<^verbatim>\<open>https://www.amazon.com/dp/<asin>\<close> of the caller's ASIN.
\<close>

theorem asin_url_backfilled:
  assumes "normalizeProduct numToString pd (Some asin) u html = Inr r"
    and "asin \<noteq> []"
    and "\<not> truthy (get_prop pd ''asin'')"
  shows "get_prop r ''asin'' = JStr asin
       \<and> (\<not> truthy (get_prop pd ''url'') \<longrightarrow>
            (\<forall>x. u = Some x \<and> x \<noteq> [] \<longrightarrow> get_prop r ''url'' = JStr x)
          \<and> (u = None \<or> u = Some [] \<longrightarrow>
               get_prop r ''url'' = JStr (''https://www.amazon.com/dp/'' @ asin)))"
  using record_asin [OF assms(1)] record_url [OF assms(1)] assms(2,3)
  by (auto simp: fallback_val_def template_dp_def)

theorem asin_url_backfilled_witness:
  "normalizeProduct (\<lambda>n. []) [(''title'', JStr ''Gift wrap'')] (Some ''B08XYZ1234'') None ''<html>''
     = Inr (rec_of (JStr ''B08XYZ1234'') (JStr ''Gift wrap'') JNull (JArr []) (JArr [])
              (JStr ''https://www.amazon.com/dp/B08XYZ1234''))
   \<and> get_prop (rec_of (JStr ''B08XYZ1234'') (JStr ''Gift wrap'') JNull (JArr []) (JArr [])
              (JStr ''https://www.amazon.com/dp/B08XYZ1234'')) ''asin'' = JStr ''B08XYZ1234''
   \<and> get_prop (rec_of (JStr ''B08XYZ1234'') (JStr ''Gift wrap'') JNull (JArr []) (JArr [])
              (JStr ''https://www.amazon.com/dp/B08XYZ1234'')) ''url''
       = JStr ''https://www.amazon.com/dp/B08XYZ1234''"
proof -
  have run: "normalizeProduct (\<lambda>n. []) [(''title'', JStr ''Gift wrap'')] (Some ''B08XYZ1234'') None ''<html>''
     = Inr (rec_of (JStr ''B08XYZ1234'') (JStr ''Gift wrap'') JNull (JArr []) (JArr [])
              (JStr ''https://www.amazon.com/dp/B08XYZ1234''))"
    by code_simp
  have given: "''B08XYZ1234'' \<noteq> []"
    by simp
  have absent: "\<not> truthy (get_prop [(''title'', JStr ''Gift wrap'')] ''asin'')"
    by (simp add: get_prop_def)
  from asin_url_backfilled [OF run given absent] run show ?thesis
    by (simp add: get_prop_def)
qed

section \<open>C10: the keys of the record\<close>

text \<open>
  C10 (as amended).  Every record returned on the success path has exactly the 16 schema
  keys, in the order of the object literal, and none of them is bound to \<^verbatim>\<open>undefined\<close>:
  each is bound to \<^verbatim>\<open>null\<close>, a boolean, a number, a string, an array or an object.
  \<^verbatim>\<open>images\<close> is always an array; \<^verbatim>\<open>printNames\<close> and \<^verbatim>\<open>rolls\<close> are arrays or \<^verbatim>\<open>null\<close>.
\<close>

theorem record_keys_bound:
  assumes "normalizeProduct numToString pd a u html = Inr r"
  shows "map fst r =
           [''asin'', ''type'', ''title'', ''price'', ''brand'', ''description'', ''size'',
            ''quantity'', ''dimensions'', ''rollLength'', ''rollWidth'', ''printNames'',
            ''rolls'', ''thumbnail'', ''images'', ''url'']
       \<and> (\<forall>k \<in> set (map fst r). get_prop r k \<noteq> JUndefined)
       \<and> isArray (get_prop r ''images'')
       \<and> (get_prop r ''printNames'' = JNull \<or> isArray (get_prop r ''printNames''))
       \<and> (get_prop r ''rolls'' = JNull \<or> isArray (get_prop r ''rolls''))"
proof -
  let ?d = "ensureFields pd a u"
  from assms have cn: "cleanAndNormalize ?d a = Inr r"
    by (rule normalizeProduct_Inr)
  have keys: "map fst r = map fst (cleanedData ?d a)"
    using cn by (rule cleanAndNormalize_keys)
  have rolls: "get_prop r ''rolls'' = JNull \<or> isArray (get_prop r ''rolls'')"
    using cleanAndNormalize_rolls [OF cn]
      array_null_or_empty_cases [of "get_prop ?d ''rolls''"]
    by (cases "array_null_or_empty (get_prop ?d ''rolls'')")
       (auto simp: cleanedData_array_fields)
  have other: "get_prop r k \<noteq> JUndefined" if "k \<in> set (map fst r)" for k
  proof (cases "k = ''rolls''")
    case True
    with rolls show ?thesis by auto
  next
    case False
    from that keys have "k \<in> set (map fst (cleanedData ?d a))"
      by simp
    from cleanedData_defined [OF this] cleanAndNormalize_other [OF cn False]
    show ?thesis by simp
  qed
  have images: "isArray (get_prop r ''images'')"
    using cleanAndNormalize_other [OF cn, of "''images''"]
    by (simp add: cleanedData_array_fields)
  have names: "get_prop r ''printNames'' = JNull \<or> isArray (get_prop r ''printNames'')"
    using cleanAndNormalize_other [OF cn, of "''printNames''"]
      array_null_or_empty_cases [of "get_prop ?d ''printNames''"]
    by (simp add: cleanedData_array_fields)
  from keys other images names rolls show ?thesis
    by (simp add: cleanedData_keys)
qed

theorem record_keys_bound_witness:
  "normalizeProduct (\<lambda>n. []) [(''title'', JStr ''Gift wrap''), (''rolls'', JNull)] None None ''<html>''
     = Inr (rec_of JNull (JStr ''Gift wrap'') JNull (JArr []) JNull JNull)
   \<and> length (rec_of JNull (JStr ''Gift wrap'') JNull (JArr []) JNull JNull) = 16
   \<and> get_prop (rec_of JNull (JStr ''Gift wrap'') JNull (JArr []) JNull JNull) ''brand''
       \<noteq> JUndefined"
proof -
  have run: "normalizeProduct (\<lambda>n. []) [(''title'', JStr ''Gift wrap''), (''rolls'', JNull)]
      None None ''<html>''
     = Inr (rec_of JNull (JStr ''Gift wrap'') JNull (JArr []) JNull JNull)"
    by code_simp
  from record_keys_bound [OF run] run show ?thesis
    by (simp add: rec_of_def)
qed

text \<open>
  C10 as stated fails: a \<^verbatim>\<open>title\<close> that the completion gives as a nested object is truthy
  and is passed through, so a key of the record can be bound to an object.
\<close>

theorem object_title_passed_through:
  "normalizeProduct (\<lambda>n. []) [(''title'', JObj [(''en'', JStr ''Gift wrap'')])] None None ''<html>''
     = Inr [(''asin'', JNull), (''type'', JNull),
            (''title'', JObj [(''en'', JStr ''Gift wrap'')]), (''price'', JNull),
            (''brand'', JNull), (''description'', JNull), (''size'', JNull),
            (''quantity'', JNull), (''dimensions'', JNull), (''rollLength'', JNull),
            (''rollWidth'', JNull), (''printNames'', JArr []), (''rolls'', JArr []),
            (''thumbnail'', JNull), (''images'', JArr []), (''url'', JNull)]"
  by code_simp

end
